theory Spec2Isabelle
  imports Main "HOL-Library.Word"
begin

unbundle bit_operations_syntax

text \<open>
  A model of the VaultGuard mobile client: the crypto module (key derivation with
  PBKDF2, encryption and decryption of records with AES-GCM), the authentication store
  that holds the derived key in memory, and the code around it that touches the secure
  store of the device. Each section of definitions is named after the source file it
  follows; the properties come after all definitions.
\<close>

section \<open>Values of the JavaScript runtime\<close>

text \<open>
  A \<open>Uint8Array\<close> is a list of 8-bit words. A JavaScript string is a \<open>string\<close>, a
  list of characters; its \<open>.length\<close> is \<open>length\<close> and the empty string is the only
  falsy one. The binary strings that the base-64 helpers build hold one character per
  byte; what the text codec makes of the characters of a plaintext is left to the
  platform. A value that may be \<open>null\<close> or \<open>undefined\<close> is an \<open>option\<close>. A thrown
  exception is a value of \<open>js_error\<close>: the source throws \<open>new Error(message)\<close>
  everywhere, \<open>JSON.parse\<close> throws a \<open>SyntaxError\<close> and \<open>JSON.stringify\<close> a
  \<open>TypeError\<close>.
\<close>

type_synonym byte = "8 word"
type_synonym bytes = "byte list"

datatype js_error = Error string | SyntaxError string | TypeError string

text \<open>\<open>error.message\<close>.\<close>

fun message_of :: "js_error \<Rightarrow> string" where
  "message_of (Error m) = m"
| "message_of (SyntaxError m) = m"
| "message_of (TypeError m) = m"

text \<open>\<open>!v\<close> for a string that may be undefined.\<close>

fun falsy :: "string option \<Rightarrow> bool" where
  "falsy None = True"
| "falsy (Some s) = (s = [])"

text \<open>The string in a field that is present (\<open>[]\<close> stands for an absent one).\<close>

fun string_value :: "string option \<Rightarrow> string" where
  "string_value None = []"
| "string_value (Some s) = s"

text \<open>\<open>a || b\<close> where \<open>a\<close> may be undefined and \<open>b\<close> is a string.\<close>

definition js_or :: "string option \<Rightarrow> string \<Rightarrow> string" where
  "js_or a b = (case a of None \<Rightarrow> b | Some s \<Rightarrow> if s = [] then b else s)"

section \<open>The platform: Web Crypto, base-64, text codec, JSON\<close>

text \<open>
  The crypto module calls \<open>crypto.subtle\<close>, \<open>crypto.getRandomValues\<close>, the \<open>base-64\<close>
  package, \<open>TextEncoder\<close>/\<open>TextDecoder\<close> and \<open>JSON\<close>. None of them is code of the
  repository, so they are parameters of the model, collected in one record. A call that
  may throw returns an \<open>option\<close>; \<open>JSON.parse\<close> returns \<open>Inl\<close> the message of its
  \<open>SyntaxError\<close>, which the engine words from the text it was given, and
  \<open>JSON.stringify\<close> returns \<open>Inl\<close> the message of its \<open>TypeError\<close> (a cyclic value, a
  \<open>BigInt\<close>), \<open>Inr None\<close> for \<open>undefined\<close> and \<open>Inr (Some text)\<close> otherwise. \<open>'k\<close> is the
  type of \<open>CryptoKey\<close> handles, \<open>'o\<close> the type of parsed JSON values. The algorithm
  parameters the source passes (key length, tag length, hash, iteration count, number of
  bits) are arguments of the calls.
\<close>

datatype key_algorithm = AES_GCM nat | PBKDF2
datatype key_usage = Uencrypt | Udecrypt | UderiveBits
datatype hash_algorithm = SHA_1 | SHA_256 | SHA_384 | SHA_512

record ('k, 'o) platform =
  base64Encode :: "string \<Rightarrow> string"
  base64Decode :: "string \<Rightarrow> string option"
  TextEncoder_encode :: "string \<Rightarrow> bytes"
  TextDecoder_decode :: "bytes \<Rightarrow> string"
  subtle_importKey :: "key_algorithm \<Rightarrow> key_usage list \<Rightarrow> bytes \<Rightarrow> 'k option"
  subtle_encrypt :: "'k \<Rightarrow> bytes \<Rightarrow> nat \<Rightarrow> bytes \<Rightarrow> bytes option"
  subtle_decrypt :: "'k \<Rightarrow> bytes \<Rightarrow> nat \<Rightarrow> bytes \<Rightarrow> bytes option"
  subtle_deriveBits :: "'k \<Rightarrow> bytes \<Rightarrow> nat \<Rightarrow> hash_algorithm \<Rightarrow> nat \<Rightarrow> bytes option"
  JSON_stringify :: "'o \<Rightarrow> string + string option"
  JSON_parse :: "string \<Rightarrow> string + 'o"

text \<open>
  The Random Byte Source is the state that \<open>crypto.getRandomValues\<close> consumes: the
  sequence of bytes it has still to deliver. Filling an array of \<open>n\<close> bytes takes the
  next \<open>n\<close> of them.
\<close>

type_synonym random_source = "nat \<Rightarrow> byte"

definition getRandomValues :: "nat \<Rightarrow> random_source \<Rightarrow> bytes \<times> random_source" where
  "getRandomValues n rng = (map rng [0..<n], \<lambda>i. rng (i + n))"

section \<open>crypto/aes-gcm.ts\<close>

record EncryptedData =
  encryptedData :: "string option"
  iv :: "string option"
  authTag :: "string option"

text \<open>
  \<open>bytesToBase64\<close> builds a binary string with \<open>String.fromCharCode\<close> and encodes it;
  \<open>base64ToBytes\<close> decodes and reads the characters back with \<open>charCodeAt\<close>.
\<close>

definition binary_of_bytes :: "bytes \<Rightarrow> string" where
  "binary_of_bytes bs = map (\<lambda>b. char_of (unat b)) bs"

definition bytes_of_binary :: "string \<Rightarrow> bytes" where
  "bytes_of_binary s = map (\<lambda>c. word_of_nat (of_char c)) s"

definition bytesToBase64 :: "('k, 'o) platform \<Rightarrow> bytes \<Rightarrow> string" where
  "bytesToBase64 E bs = base64Encode E (binary_of_bytes bs)"

definition base64ToBytes :: "('k, 'o) platform \<Rightarrow> string \<Rightarrow> bytes option" where
  "base64ToBytes E s = map_option bytes_of_binary (base64Decode E s)"

text \<open>
  The body of the \<open>try\<close> block of \<open>encryptData\<close>. It returns the record, or \<open>None\<close> when
  any call in it throws, and the random source as the block left it: the nonce is drawn
  after the key has been imported and before the plaintext is encoded.
  \<open>slice(0, -16)\<close> and \<open>slice(-16)\<close> clamp at the start of the array, as \<open>nat\<close>
  subtraction does.
\<close>

definition encrypt_try ::
  "('k, 'o) platform \<Rightarrow> string \<Rightarrow> string \<Rightarrow> random_source \<Rightarrow> EncryptedData option \<times> random_source"
where
  "encrypt_try E plaintext encryptionKey rng =
     (case base64ToBytes E encryptionKey of
        None \<Rightarrow> (None, rng)
      | Some keyBytes \<Rightarrow>
          (case subtle_importKey E (AES_GCM 256) [Uencrypt] keyBytes of
             None \<Rightarrow> (None, rng)
           | Some cryptoKey \<Rightarrow>
               (let (nonce, rng') = getRandomValues 12 rng;
                    plaintextBytes = TextEncoder_encode E plaintext
                in case subtle_encrypt E cryptoKey nonce 128 plaintextBytes of
                     None \<Rightarrow> (None, rng')
                   | Some encryptedArray \<Rightarrow>
                       (let ciphertext = take (length encryptedArray - 16) encryptedArray;
                            tag = drop (length encryptedArray - 16) encryptedArray
                        in (Some \<lparr> encryptedData = Some (bytesToBase64 E ciphertext),
                                   iv = Some (bytesToBase64 E nonce),
                                   authTag = Some (bytesToBase64 E tag) \<rparr>, rng')))))"

definition encryptData ::
  "('k, 'o) platform \<Rightarrow> string \<Rightarrow> string \<Rightarrow> random_source
     \<Rightarrow> (js_error + EncryptedData) \<times> random_source"
where
  "encryptData E plaintext encryptionKey rng =
     (if plaintext = [] then (Inl (Error ''Plaintext data is required''), rng)
      else if encryptionKey = [] then (Inl (Error ''Encryption key is required''), rng)
      else (case encrypt_try E plaintext encryptionKey rng of
              (None, rng') \<Rightarrow> (Inl (Error ''Failed to encrypt data''), rng')
            | (Some r, rng') \<Rightarrow> (Inr r, rng')))"

text \<open>The body of the \<open>try\<close> block of \<open>decryptData\<close>, entered with three non-empty fields.\<close>

definition decrypt_try ::
  "('k, 'o) platform \<Rightarrow> string \<Rightarrow> string \<Rightarrow> string \<Rightarrow> string \<Rightarrow> string option"
where
  "decrypt_try E ct_b64 iv_b64 tag_b64 encryptionKey =
     (case base64ToBytes E encryptionKey of
        None \<Rightarrow> None
      | Some keyBytes \<Rightarrow>
          (case subtle_importKey E (AES_GCM 256) [Udecrypt] keyBytes of
             None \<Rightarrow> None
           | Some cryptoKey \<Rightarrow>
               (case base64ToBytes E ct_b64 of
                  None \<Rightarrow> None
                | Some ciphertext \<Rightarrow>
                    (case base64ToBytes E iv_b64 of
                       None \<Rightarrow> None
                     | Some nonce \<Rightarrow>
                         (case base64ToBytes E tag_b64 of
                            None \<Rightarrow> None
                          | Some tag \<Rightarrow>
                              map_option (TextDecoder_decode E)
                                (subtle_decrypt E cryptoKey nonce 128 (ciphertext @ tag)))))))"

definition decryptData ::
  "('k, 'o) platform \<Rightarrow> EncryptedData option \<Rightarrow> string \<Rightarrow> js_error + string"
where
  "decryptData E encrypted encryptionKey =
     (case encrypted of
        None \<Rightarrow> Inl (Error ''Invalid encrypted data structure'')
      | Some r \<Rightarrow>
          if falsy (encryptedData r) \<or> falsy (iv r) \<or> falsy (authTag r)
          then Inl (Error ''Invalid encrypted data structure'')
          else if encryptionKey = [] then Inl (Error ''Encryption key is required'')
          else (case decrypt_try E (string_value (encryptedData r)) (string_value (iv r))
                       (string_value (authTag r)) encryptionKey of
                  None \<Rightarrow> Inl (Error ''Decryption failed - incorrect password or corrupted data'')
                | Some s \<Rightarrow> Inr s))"

text \<open>
  \<open>encryptObject\<close> passes \<open>JSON.stringify(obj)\<close> on; \<open>undefined\<close> is falsy and meets the
  first guard of \<open>encryptData\<close>, and a \<open>TypeError\<close> of \<open>JSON.stringify\<close> leaves the
  function as it is, since the call stands outside any \<open>try\<close>. \<open>decryptObject\<close> parses outside any \<open>try\<close>: a parse
  failure leaves it as the parser's \<open>SyntaxError\<close>.
\<close>

definition encryptObject ::
  "('k, 'o) platform \<Rightarrow> 'o \<Rightarrow> string \<Rightarrow> random_source
     \<Rightarrow> (js_error + EncryptedData) \<times> random_source"
where
  "encryptObject E obj encryptionKey rng =
     (case JSON_stringify E obj of
        Inl m \<Rightarrow> (Inl (TypeError m), rng)
      | Inr None \<Rightarrow> (Inl (Error ''Plaintext data is required''), rng)
      | Inr (Some jsonString) \<Rightarrow> encryptData E jsonString encryptionKey rng)"

definition decryptObject ::
  "('k, 'o) platform \<Rightarrow> EncryptedData option \<Rightarrow> string \<Rightarrow> js_error + 'o"
where
  "decryptObject E encrypted encryptionKey =
     (case decryptData E encrypted encryptionKey of
        Inl e \<Rightarrow> Inl e
      | Inr jsonString \<Rightarrow>
          (case JSON_parse E jsonString of
             Inl m \<Rightarrow> Inl (SyntaxError m)
           | Inr v \<Rightarrow> Inr v))"

section \<open>crypto/key-derivation.ts\<close>

definition PBKDF2_ITERATIONS :: nat where
  "PBKDF2_ITERATIONS = 100000"

definition KEY_LENGTH :: nat where
  "KEY_LENGTH = 32"

definition stringToBytes :: "('k, 'o) platform \<Rightarrow> string \<Rightarrow> bytes" where
  "stringToBytes E str = TextEncoder_encode E str"

definition pbkdf2Sha256 ::
  "('k, 'o) platform \<Rightarrow> bytes \<Rightarrow> bytes \<Rightarrow> nat \<Rightarrow> nat \<Rightarrow> bytes option"
where
  "pbkdf2Sha256 E password salt iterations keyLength =
     (case subtle_importKey E PBKDF2 [UderiveBits] password of
        None \<Rightarrow> None
      | Some keyMaterial \<Rightarrow> subtle_deriveBits E keyMaterial salt iterations SHA_256 (keyLength * 8))"

definition deriveEncryptionKey ::
  "('k, 'o) platform \<Rightarrow> string \<Rightarrow> string \<Rightarrow> js_error + string"
where
  "deriveEncryptionKey E masterPassword userId =
     (if masterPassword = [] \<or> length masterPassword < 8
      then Inl (Error ''Master password must be at least 8 characters'')
      else if userId = [] then Inl (Error ''User ID is required as salt'')
      else (case pbkdf2Sha256 E (stringToBytes E masterPassword) (stringToBytes E userId)
                   PBKDF2_ITERATIONS KEY_LENGTH of
              None \<Rightarrow> Inl (Error ''Failed to derive encryption key'')
            | Some keyBytes \<Rightarrow> Inr (bytesToBase64 E keyBytes)))"

definition verifyMasterPassword ::
  "('k, 'o) platform \<Rightarrow> string \<Rightarrow> string \<Rightarrow> EncryptedData option \<Rightarrow> bool"
where
  "verifyMasterPassword E masterPassword userId encryptedTestData =
     (case deriveEncryptionKey E masterPassword userId of
        Inl e \<Rightarrow> False
      | Inr k \<Rightarrow>
          (case decryptData E encryptedTestData k of
             Inl e \<Rightarrow> False
           | Inr s \<Rightarrow> True))"

section \<open>What the crypto module expects of the platform\<close>

text \<open>
  The contracts of the library calls, as far as the claims need them. The \<open>base-64\<close>
  codec decodes what it encoded, and decodes the empty string to the empty string. The
  text encoder gives a non-empty string at least one byte. AES-GCM with a 128-bit tag,
  under one raw key imported for encryption and for decryption and a 12-byte nonce,
  encrypts every plaintext to a ciphertext 16 bytes longer and decrypts that ciphertext
  to the plaintext. Nothing is assumed of decryption under another key or of a changed
  ciphertext.
\<close>

definition base64_laws :: "('k, 'o) platform \<Rightarrow> bool" where
  "base64_laws E \<longleftrightarrow>
     (\<forall>s. base64Decode E (base64Encode E s) = Some s) \<and> base64Decode E [] = Some []"

definition text_laws :: "('k, 'o) platform \<Rightarrow> bool" where
  "text_laws E \<longleftrightarrow> (\<forall>s. s \<noteq> [] \<longrightarrow> TextEncoder_encode E s \<noteq> [])"

definition aes_gcm_laws :: "('k, 'o) platform \<Rightarrow> bool" where
  "aes_gcm_laws E \<longleftrightarrow>
     (\<forall>raw ek dk nonce pt.
        subtle_importKey E (AES_GCM 256) [Uencrypt] raw = Some ek \<longrightarrow>
        subtle_importKey E (AES_GCM 256) [Udecrypt] raw = Some dk \<longrightarrow>
        length nonce = 12 \<longrightarrow>
        (case subtle_encrypt E ek nonce 128 pt of
           None \<Rightarrow> False
         | Some ct \<Rightarrow> length ct = length pt + 16 \<and> subtle_decrypt E dk nonce 128 ct = Some pt))"

definition platform_laws :: "('k, 'o) platform \<Rightarrow> bool" where
  "platform_laws E \<longleftrightarrow> base64_laws E \<and> text_laws E \<and> aes_gcm_laws E"

text \<open>
  A valid 256-bit key is a string whose base-64 decoding has 32 bytes that the platform
  imports as an AES-GCM key, for encryption and for decryption.
\<close>

definition valid_key :: "('k, 'o) platform \<Rightarrow> string \<Rightarrow> bool" where
  "valid_key E k \<longleftrightarrow>
     (case base64ToBytes E k of
        None \<Rightarrow> False
      | Some raw \<Rightarrow>
          length raw = 32 \<and>
          subtle_importKey E (AES_GCM 256) [Uencrypt] raw \<noteq> None \<and>
          subtle_importKey E (AES_GCM 256) [Udecrypt] raw \<noteq> None)"

section \<open>A reference platform\<close>

text \<open>
  A small platform on which the model can be run: the base-64 codec of RFC 4648, a text
  codec that agrees with UTF-8 on ASCII, and stand-ins for AES-GCM, PBKDF2 and JSON that
  keep the shape of the real calls (a masked payload followed by a 16-byte tag that is
  checked on decryption, a key that depends on password, salt and iteration count, a parser
  that accepts the texts in braces). It serves the concrete runs below and shows that
  the contracts above can be met; no claim about the strength of a cipher rests on it.
\<close>

definition b64_char :: "nat \<Rightarrow> char" where
  "b64_char n =
     (if n < 26 then char_of (65 + n)
      else if n < 52 then char_of (71 + n)
      else if n < 62 then char_of (n - 4)
      else if n = 62 then CHR ''+'' else CHR ''/'')"

definition b64_index :: "char \<Rightarrow> nat option" where
  "b64_index c =
     (let x = (of_char c :: nat) in
      if 65 \<le> x \<and> x \<le> 90 then Some (x - 65)
      else if 97 \<le> x \<and> x \<le> 122 then Some (x - 71)
      else if 48 \<le> x \<and> x \<le> 57 then Some (x + 4)
      else if x = 43 then Some 62
      else if x = 47 then Some 63
      else None)"

fun b64_encode :: "string \<Rightarrow> string" where
  "b64_encode (a # b # c # rest) =
     (let x = (of_char a :: nat); y = (of_char b :: nat); z = (of_char c :: nat)
      in [b64_char (x div 4), b64_char ((x mod 4) * 16 + y div 16),
          b64_char ((y mod 16) * 4 + z div 64), b64_char (z mod 64)]) @ b64_encode rest"
| "b64_encode [a, b] =
     (let x = (of_char a :: nat); y = (of_char b :: nat)
      in [b64_char (x div 4), b64_char ((x mod 4) * 16 + y div 16),
          b64_char ((y mod 16) * 4), CHR ''=''])"
| "b64_encode [a] =
     (let x = (of_char a :: nat)
      in [b64_char (x div 4), b64_char ((x mod 4) * 16), CHR ''='', CHR ''=''])"
| "b64_encode [] = []"

fun b64_decode :: "string \<Rightarrow> string option" where
  "b64_decode [] = Some []"
| "b64_decode (c1 # c2 # c3 # c4 # rest) =
     (case (b64_index c1, b64_index c2) of
        (Some s1, Some s2) \<Rightarrow>
          if c3 = CHR ''='' then
            (if c4 = CHR ''='' \<and> rest = [] then Some [char_of (s1 * 4 + s2 div 16)] else None)
          else
            (case b64_index c3 of
               None \<Rightarrow> None
             | Some s3 \<Rightarrow>
                 if c4 = CHR ''='' then
                   (if rest = []
                    then Some [char_of (s1 * 4 + s2 div 16), char_of ((s2 mod 16) * 16 + s3 div 4)]
                    else None)
                 else
                   (case b64_index c4 of
                      None \<Rightarrow> None
                    | Some s4 \<Rightarrow>
                        map_option
                          (\<lambda>tl. char_of (s1 * 4 + s2 div 16) # char_of ((s2 mod 16) * 16 + s3 div 4)
                                  # char_of ((s3 mod 4) * 64 + s4) # tl)
                          (b64_decode rest)))
      | _ \<Rightarrow> None)"
| "b64_decode _ = None"


type_synonym demo_cryptokey = "key_algorithm \<times> key_usage list \<times> bytes"

definition demo_importKey :: "key_algorithm \<Rightarrow> key_usage list \<Rightarrow> bytes \<Rightarrow> demo_cryptokey option" where
  "demo_importKey alg usages raw =
     (case alg of
        AES_GCM n \<Rightarrow>
          if length raw = 16 \<or> length raw = 24 \<or> length raw = 32
          then Some (alg, usages, raw) else None
      | PBKDF2 \<Rightarrow> Some (alg, usages, raw))"

definition demo_pad :: "bytes \<Rightarrow> bytes \<Rightarrow> nat \<Rightarrow> byte" where
  "demo_pad raw nonce i = sum_list raw + 3 * sum_list nonce + 7 * word_of_nat i + 1"

definition demo_mask :: "bytes \<Rightarrow> bytes \<Rightarrow> bytes \<Rightarrow> bytes" where
  "demo_mask raw nonce bs = map (\<lambda>(i, b). b XOR demo_pad raw nonce i) (enumerate 0 bs)"

definition demo_tag :: "bytes \<Rightarrow> bytes \<Rightarrow> bytes \<Rightarrow> bytes" where
  "demo_tag raw nonce ct =
     map (\<lambda>j. 5 * sum_list raw + sum_list nonce + sum_list ct + word_of_nat (length ct) + word_of_nat j)
       [0..<16]"

definition demo_encrypt :: "demo_cryptokey \<Rightarrow> bytes \<Rightarrow> nat \<Rightarrow> bytes \<Rightarrow> bytes option" where
  "demo_encrypt ck nonce tagLength pt =
     (case ck of
        (AES_GCM n, usages, raw) \<Rightarrow>
          if Uencrypt \<in> set usages \<and> tagLength = 128 \<and> nonce \<noteq> []
          then Some (demo_mask raw nonce pt @ demo_tag raw nonce (demo_mask raw nonce pt))
          else None
      | (PBKDF2, usages, raw) \<Rightarrow> None)"

definition demo_decrypt :: "demo_cryptokey \<Rightarrow> bytes \<Rightarrow> nat \<Rightarrow> bytes \<Rightarrow> bytes option" where
  "demo_decrypt ck nonce tagLength ct =
     (case ck of
        (AES_GCM n, usages, raw) \<Rightarrow>
          if Udecrypt \<in> set usages \<and> tagLength = 128 \<and> nonce \<noteq> [] \<and> 16 \<le> length ct
             \<and> drop (length ct - 16) ct = demo_tag raw nonce (take (length ct - 16) ct)
          then Some (demo_mask raw nonce (take (length ct - 16) ct))
          else None
      | (PBKDF2, usages, raw) \<Rightarrow> None)"

definition demo_deriveBits ::
  "demo_cryptokey \<Rightarrow> bytes \<Rightarrow> nat \<Rightarrow> hash_algorithm \<Rightarrow> nat \<Rightarrow> bytes option"
where
  "demo_deriveBits ck salt iterations h bits =
     (case ck of
        (PBKDF2, usages, raw) \<Rightarrow>
          if UderiveBits \<in> set usages \<and> 0 < iterations \<and> bits mod 8 = 0
          then Some (map (\<lambda>i. (sum_list raw + 1) * (2 * word_of_nat i + 3) + 5 * sum_list salt
                               + word_of_nat (length raw) + word_of_nat iterations)
                        [0..<bits div 8])
          else None
      | (AES_GCM n, usages, raw) \<Rightarrow> None)"

definition demo_parse :: "string \<Rightarrow> string + string" where
  "demo_parse s =
     (case s of
        [] \<Rightarrow> Inl ''Unexpected end of JSON input''
      | c # cs \<Rightarrow>
          if c = CHR ''{'' \<and> cs \<noteq> [] \<and> last cs = CHR ''}'' then Inr s
          else Inl (''Unexpected token '' @ [c] @ '' in JSON at position 0''))"

definition demo :: "(demo_cryptokey, string) platform" where
  "demo = \<lparr> base64Encode = b64_encode,
            base64Decode = b64_decode,
            TextEncoder_encode = bytes_of_binary,
            TextDecoder_decode = binary_of_bytes,
            subtle_importKey = demo_importKey,
            subtle_encrypt = demo_encrypt,
            subtle_decrypt = demo_decrypt,
            subtle_deriveBits = demo_deriveBits,
            JSON_stringify = (\<lambda>v. Inr (Some v)),
            JSON_parse = demo_parse \<rparr>"

definition demo_rng :: random_source where
  "demo_rng i = word_of_nat (17 * i + 5)"


section \<open>The secure local key-value store (expo-secure-store)\<close>

text \<open>
  The store is a map from keys to strings. Two fields describe its behaviour rather than
  its content: \<open>writes\<close> records every completed \<open>setItemAsync\<close> call, oldest first,
  and \<open>faults\<close> is the schedule of failures: each call takes the head of the list and
  throws when it is \<open>True\<close>; an empty schedule means no further call fails.
\<close>

record SecureStore =
  entries :: "string \<rightharpoonup> string"
  writes :: "(string \<times> string) list"
  faults :: "bool list"

definition secure_store_error :: js_error where
  "secure_store_error = Error ''SecureStore operation failed''"

definition next_fault :: "SecureStore \<Rightarrow> bool \<times> SecureStore" where
  "next_fault ss = (case faults ss of [] \<Rightarrow> (False, ss) | f # fs \<Rightarrow> (f, ss\<lparr>faults := fs\<rparr>))"

definition getItemAsync :: "string \<Rightarrow> SecureStore \<Rightarrow> (js_error + string option) \<times> SecureStore" where
  "getItemAsync k ss =
     (case next_fault ss of
        (True, ss') \<Rightarrow> (Inl secure_store_error, ss')
      | (False, ss') \<Rightarrow> (Inr (entries ss' k), ss'))"

definition setItemAsync :: "string \<Rightarrow> string \<Rightarrow> SecureStore \<Rightarrow> (js_error + unit) \<times> SecureStore" where
  "setItemAsync k v ss =
     (case next_fault ss of
        (True, ss') \<Rightarrow> (Inl secure_store_error, ss')
      | (False, ss') \<Rightarrow>
          (Inr (), ss'\<lparr>entries := (entries ss')(k \<mapsto> v), writes := writes ss' @ [(k, v)]\<rparr>))"

definition deleteItemAsync :: "string \<Rightarrow> SecureStore \<Rightarrow> (js_error + unit) \<times> SecureStore" where
  "deleteItemAsync k ss =
     (case next_fault ss of
        (True, ss') \<Rightarrow> (Inl secure_store_error, ss')
      | (False, ss') \<Rightarrow> (Inr (), ss'\<lparr>entries := (entries ss')(k := None)\<rparr>))"

section \<open>config/env.ts: the storage keys\<close>

definition ACCESS_TOKEN :: string where
  "ACCESS_TOKEN = ''vaultguard_access_token''"

definition REFRESH_TOKEN :: string where
  "REFRESH_TOKEN = ''vaultguard_refresh_token''"

definition DEVICE_ID :: string where
  "DEVICE_ID = ''vaultguard_device_id''"

definition BIOMETRIC_ENABLED :: string where
  "BIOMETRIC_ENABLED = ''vaultguard_biometric_enabled''"

section \<open>services/api.ts\<close>

definition saveTokens :: "string \<Rightarrow> string \<Rightarrow> SecureStore \<Rightarrow> (js_error + unit) \<times> SecureStore" where
  "saveTokens access refresh ss =
     (case setItemAsync ACCESS_TOKEN access ss of
        (Inl e, ss1) \<Rightarrow> (Inl e, ss1)
      | (Inr u, ss1) \<Rightarrow> setItemAsync REFRESH_TOKEN refresh ss1)"

definition clearTokens :: "SecureStore \<Rightarrow> (js_error + unit) \<times> SecureStore" where
  "clearTokens ss =
     (case deleteItemAsync ACCESS_TOKEN ss of
        (Inl e, ss1) \<Rightarrow> (Inl e, ss1)
      | (Inr u, ss1) \<Rightarrow> deleteItemAsync REFRESH_TOKEN ss1)"

text \<open>
  The response interceptor of \<open>apiClient\<close> on a first 401: it reads the refresh
  token, posts it, stores the two new tokens and retries the request; whatever throws on
  the way, it clears the tokens and rejects. The server's answer to the post is an
  input, an error or the pair of new tokens. The result tells whether the request is
  retried.
\<close>

definition refreshOnUnauthorized ::
  "'e + string \<times> string \<Rightarrow> SecureStore \<Rightarrow> bool \<times> SecureStore"
where
  "refreshOnUnauthorized answer ss =
     (case getItemAsync REFRESH_TOKEN ss of
        (Inl e, ss1) \<Rightarrow> (False, snd (clearTokens ss1))
      | (Inr stored, ss1) \<Rightarrow>
          if falsy stored then (False, snd (clearTokens ss1))
          else
            (case answer of
               Inl ae \<Rightarrow> (False, snd (clearTokens ss1))
             | Inr (newAccessToken, newRefreshToken) \<Rightarrow>
                 (case setItemAsync ACCESS_TOKEN newAccessToken ss1 of
                    (Inl e, ss2) \<Rightarrow> (False, snd (clearTokens ss2))
                  | (Inr u, ss2) \<Rightarrow>
                      (case setItemAsync REFRESH_TOKEN newRefreshToken ss2 of
                         (Inl e, ss3) \<Rightarrow> (False, snd (clearTokens ss3))
                       | (Inr u', ss3) \<Rightarrow> (True, ss3)))))"

text \<open>
  What a \<open>catch\<close> of the service layer can receive: an axios error, with the server's
  response (its \<open>title\<close>, \<open>message\<close> and status) when there was one and a flag for
  the request having been sent, or any other exception.
\<close>

datatype axios_error =
  AxiosError (response: "(string option \<times> string option \<times> nat) option") (request: bool)

datatype caught = Axios axios_error | Other js_error

record ApiErrorResponse =
  message :: string
  status :: nat

fun handleApiError :: "caught \<Rightarrow> ApiErrorResponse" where
  "handleApiError (Axios (AxiosError (Some (title, msg, st)) req)) =
     \<lparr> message = js_or title (js_or msg ''An error occurred''), status = st \<rparr>"
| "handleApiError (Axios (AxiosError None True)) =
     \<lparr> message = ''Network error - please check your connection'', status = 0 \<rparr>"
| "handleApiError c = \<lparr> message = ''An unexpected error occurred'', status = 500 \<rparr>"

section \<open>services/auth.service.ts\<close>

text \<open>
  The answer of the authentication server to a request is an input of the model: an
  axios error or the response body. The request itself only travels to the server, so
  the service functions take the answer in its place.
\<close>

datatype AuthResponse =
  AuthResponse (resp_accessToken: string) (resp_refreshToken: string) (userId: string)
    (resp_email: string) (resp_firstName: "string option") (resp_lastName: "string option")

type_synonym 'a reply = "axios_error + 'a"

definition AuthService_register ::
  "AuthResponse reply \<Rightarrow> SecureStore \<Rightarrow> (js_error + AuthResponse) \<times> SecureStore"
where
  "AuthService_register answer ss =
     (case answer of
        Inl ae \<Rightarrow> (Inl (Error (message (handleApiError (Axios ae)))), ss)
      | Inr authData \<Rightarrow>
          (case saveTokens (resp_accessToken authData) (resp_refreshToken authData) ss of
             (Inl e, ss') \<Rightarrow> (Inl (Error (message (handleApiError (Other e)))), ss')
           | (Inr u, ss') \<Rightarrow> (Inr authData, ss')))"

definition AuthService_login ::
  "AuthResponse reply \<Rightarrow> SecureStore \<Rightarrow> (js_error + AuthResponse) \<times> SecureStore"
where
  "AuthService_login answer ss =
     (case answer of
        Inl ae \<Rightarrow> (Inl (Error (message (handleApiError (Axios ae)))), ss)
      | Inr authData \<Rightarrow>
          (case saveTokens (resp_accessToken authData) (resp_refreshToken authData) ss of
             (Inl e, ss') \<Rightarrow> (Inl (Error (message (handleApiError (Other e)))), ss')
           | (Inr u, ss') \<Rightarrow> (Inr authData, ss')))"

text \<open>
  \<open>AuthService.logout\<close> swallows the failure of the request and clears the tokens in
  its \<open>finally\<close> block; only a failure of that block leaves the function.
\<close>

definition AuthService_logout ::
  "unit reply \<Rightarrow> SecureStore \<Rightarrow> (js_error + unit) \<times> SecureStore"
where
  "AuthService_logout answer ss = clearTokens ss"

section \<open>store/auth.store.ts\<close>

record User =
  id' :: string
  email :: string
  firstName :: "string option"
  lastName :: "string option"

record AuthStore =
  user :: "User option"
  accessToken :: "string option"
  refreshToken :: "string option"
  encryptionKey :: "string option"
  isAuthenticated :: bool
  isLoading :: bool
  error :: "string option"

definition initial_AuthStore :: AuthStore where
  "initial_AuthStore =
     \<lparr> user = None, accessToken = None, refreshToken = None, encryptionKey = None,
       isAuthenticated = False, isLoading = False, error = None \<rparr>"

text \<open>
  The state the actions work on: the store in memory and the secure store on the device.
  An action returns what its promise settles to (\<open>Inl\<close> the rejection) and the state it
  leaves.
\<close>

record world =
  auth :: AuthStore
  secure :: SecureStore

definition login ::
  "('k, 'o) platform \<Rightarrow> string \<Rightarrow> string \<Rightarrow> AuthResponse reply \<Rightarrow> world
     \<Rightarrow> (js_error + unit) \<times> world"
where
  "login E mail pw answer w =
     (let a1 = (auth w)\<lparr>isLoading := True, error := None\<rparr> in
      case AuthService_login answer (secure w) of
        (Inl e, ss) \<Rightarrow>
          (Inl e, \<lparr> auth = a1\<lparr>error := Some (js_or (Some (message_of e)) ''Login failed''),
                             isLoading := False\<rparr>, secure = ss \<rparr>)
      | (Inr authResponse, ss) \<Rightarrow>
          (case deriveEncryptionKey E pw (userId authResponse) of
             Inl e \<Rightarrow>
               (Inl e, \<lparr> auth = a1\<lparr>error := Some (js_or (Some (message_of e)) ''Login failed''),
                                  isLoading := False\<rparr>, secure = ss \<rparr>)
           | Inr k \<Rightarrow>
               (Inr (), \<lparr> auth = a1\<lparr>user := Some \<lparr> id' = userId authResponse,
                                                    email = resp_email authResponse,
                                                    firstName = resp_firstName authResponse,
                                                    lastName = resp_lastName authResponse \<rparr>,
                                    accessToken := Some (resp_accessToken authResponse),
                                    refreshToken := Some (resp_refreshToken authResponse),
                                    encryptionKey := Some k,
                                    isAuthenticated := True,
                                    isLoading := False\<rparr>, secure = ss \<rparr>)))"

definition register ::
  "('k, 'o) platform \<Rightarrow> string \<Rightarrow> string \<Rightarrow> string \<Rightarrow> string \<Rightarrow> AuthResponse reply \<Rightarrow> world
     \<Rightarrow> (js_error + unit) \<times> world"
where
  "register E mail pw first_name last_name answer w =
     (let a1 = (auth w)\<lparr>isLoading := True, error := None\<rparr> in
      case AuthService_register answer (secure w) of
        (Inl e, ss) \<Rightarrow>
          (Inl e, \<lparr> auth = a1\<lparr>error := Some (js_or (Some (message_of e)) ''Registration failed''),
                             isLoading := False\<rparr>, secure = ss \<rparr>)
      | (Inr authResponse, ss) \<Rightarrow>
          (case deriveEncryptionKey E pw (userId authResponse) of
             Inl e \<Rightarrow>
               (Inl e, \<lparr> auth = a1\<lparr>error := Some (js_or (Some (message_of e)) ''Registration failed''),
                                  isLoading := False\<rparr>, secure = ss \<rparr>)
           | Inr k \<Rightarrow>
               (case saveTokens (resp_accessToken authResponse) (resp_refreshToken authResponse) ss of
                  (Inl e, ss') \<Rightarrow>
                    (Inl e, \<lparr> auth = a1\<lparr>error := Some (js_or (Some (message_of e)) ''Registration failed''),
                                       isLoading := False\<rparr>, secure = ss' \<rparr>)
                | (Inr u, ss') \<Rightarrow>
                    (Inr (), \<lparr> auth = a1\<lparr>user := Some \<lparr> id' = userId authResponse,
                                                         email = resp_email authResponse,
                                                         firstName = resp_firstName authResponse,
                                                         lastName = resp_lastName authResponse \<rparr>,
                                         accessToken := Some (resp_accessToken authResponse),
                                         refreshToken := Some (resp_refreshToken authResponse),
                                         encryptionKey := Some k,
                                         isAuthenticated := True,
                                         isLoading := False\<rparr>, secure = ss' \<rparr>))))"

text \<open>
  \<open>logout\<close>: whatever \<open>AuthService.logout\<close> throws is caught and logged; the
  \<open>finally\<close> block clears the tokens again and then the state. When \<open>clearTokens\<close>
  throws there, the state is not cleared and the promise rejects.
\<close>

definition logout :: "unit reply \<Rightarrow> world \<Rightarrow> (js_error + unit) \<times> world" where
  "logout answer w =
     (case AuthService_logout answer (secure w) of
        (r, ss1) \<Rightarrow>
          (case clearTokens ss1 of
             (Inl e, ss2) \<Rightarrow> (Inl e, w\<lparr>secure := ss2\<rparr>)
           | (Inr u, ss2) \<Rightarrow>
               (Inr (), \<lparr> auth = (auth w)\<lparr>user := None, accessToken := None, refreshToken := None,
                                          encryptionKey := None, isAuthenticated := False,
                                          error := None\<rparr>,
                          secure = ss2 \<rparr>)))"

text \<open>\<open>loadSession\<close> catches every exception, so it returns the state only.\<close>

definition loadSession :: "world \<Rightarrow> world" where
  "loadSession w =
     (let a1 = (auth w)\<lparr>isLoading := True\<rparr> in
      case getItemAsync ACCESS_TOKEN (secure w) of
        (Inl e, ss1) \<Rightarrow> \<lparr> auth = a1\<lparr>isLoading := False\<rparr>, secure = ss1 \<rparr>
      | (Inr access, ss1) \<Rightarrow>
          (case getItemAsync REFRESH_TOKEN ss1 of
             (Inl e, ss2) \<Rightarrow> \<lparr> auth = a1\<lparr>isLoading := False\<rparr>, secure = ss2 \<rparr>
           | (Inr refresh, ss2) \<Rightarrow>
               if \<not> falsy access \<and> \<not> falsy refresh
               then \<lparr> auth = a1\<lparr>accessToken := access, refreshToken := refresh,
                                 isAuthenticated := True, isLoading := False\<rparr>, secure = ss2 \<rparr>
               else \<lparr> auth = a1\<lparr>isLoading := False\<rparr>, secure = ss2 \<rparr>))"

definition clearError :: "world \<Rightarrow> world" where
  "clearError w = w\<lparr>auth := (auth w)\<lparr>error := None\<rparr>\<rparr>"

definition lockApp :: "world \<Rightarrow> world" where
  "lockApp w = w\<lparr>auth := (auth w)\<lparr>encryptionKey := None\<rparr>\<rparr>"

definition unlockApp ::
  "('k, 'o) platform \<Rightarrow> string \<Rightarrow> world \<Rightarrow> (js_error + unit) \<times> world"
where
  "unlockApp E masterPassword w =
     (case user (auth w) of
        None \<Rightarrow> (Inl (Error ''No active session''), w)
      | Some u \<Rightarrow>
          (let a1 = (auth w)\<lparr>isLoading := True, error := None\<rparr> in
           case deriveEncryptionKey E masterPassword (id' u) of
             Inl e \<Rightarrow>
               (Inl e, w\<lparr>auth := a1\<lparr>error := Some (js_or (Some (message_of e)) ''Failed to unlock''),
                                     isLoading := False\<rparr>\<rparr>)
           | Inr k \<Rightarrow> (Inr (), w\<lparr>auth := a1\<lparr>encryptionKey := Some k, isLoading := False\<rparr>\<rparr>)))"

section \<open>app/_layout.tsx: the lock on going to the background\<close>

definition handleAppStateChange :: "string \<Rightarrow> world \<Rightarrow> world" where
  "handleAppStateChange nextAppState w =
     (if nextAppState = ''background'' \<and> isAuthenticated (auth w) \<and> \<not> falsy (encryptionKey (auth w))
      then lockApp w else w)"

section \<open>app/(auth)/unlock.tsx: the unlock screen\<close>

record UnlockScreen =
  password :: string
  biometricAvailable :: bool
  biometricEnabled :: bool

definition initial_UnlockScreen :: UnlockScreen where
  "initial_UnlockScreen = \<lparr> password = [], biometricAvailable = False, biometricEnabled = False \<rparr>"

text \<open>
  \<open>handleUnlock\<close> catches whatever \<open>unlockApp\<close> or the write of the password throws.
\<close>

definition handleUnlock :: "('k, 'o) platform \<Rightarrow> UnlockScreen \<Rightarrow> world \<Rightarrow> world" where
  "handleUnlock E scr w =
     (if password scr = [] then w
      else
        (case unlockApp E (password scr) (clearError w) of
           (Inl e, w') \<Rightarrow> w'
         | (Inr u, w') \<Rightarrow>
             if biometricEnabled scr
             then (case setItemAsync ''vaultguard_biometric_password'' (password scr) (secure w') of
                     (r, ss) \<Rightarrow> w'\<lparr>secure := ss\<rparr>)
             else w'))"

text \<open>
  \<open>handleBiometricUnlock\<close>: the outcome of the biometric prompt is an input, \<open>None\<close>
  when \<open>authenticateAsync\<close> throws and \<open>Some success\<close> otherwise.
\<close>

definition handleBiometricUnlock ::
  "('k, 'o) platform \<Rightarrow> bool option \<Rightarrow> UnlockScreen \<Rightarrow> world \<Rightarrow> UnlockScreen \<times> world"
where
  "handleBiometricUnlock E prompt scr w =
     (case prompt of
        None \<Rightarrow> (scr, w)
      | Some success \<Rightarrow>
          if success then
            (case getItemAsync ''vaultguard_biometric_password'' (secure w) of
               (Inl e, ss) \<Rightarrow> (scr, w\<lparr>secure := ss\<rparr>)
             | (Inr storedPassword, ss) \<Rightarrow>
                 if falsy storedPassword then (scr, w\<lparr>secure := ss\<rparr>)
                 else (scr\<lparr>password := string_value storedPassword\<rparr>,
                       snd (unlockApp E (string_value storedPassword) (w\<lparr>secure := ss\<rparr>))))
          else (scr, w))"

text \<open>
  \<open>checkBiometric\<close> runs when the screen mounts. A failure of the read of the flag is
  not caught: the function stops there.
\<close>

definition checkBiometric ::
  "('k, 'o) platform \<Rightarrow> bool \<Rightarrow> bool \<Rightarrow> bool option \<Rightarrow> UnlockScreen \<Rightarrow> world
     \<Rightarrow> UnlockScreen \<times> world"
where
  "checkBiometric E compatible enrolled prompt scr w =
     (let available = (compatible \<and> enrolled); scr1 = scr\<lparr>biometricAvailable := available\<rparr> in
      if available then
        (case getItemAsync BIOMETRIC_ENABLED (secure w) of
           (Inl e, ss) \<Rightarrow> (scr1, w\<lparr>secure := ss\<rparr>)
         | (Inr enabled, ss) \<Rightarrow>
             (let scr2 = scr1\<lparr>biometricEnabled := (enabled = Some ''true'')\<rparr> in
              if enabled = Some ''true''
              then handleBiometricUnlock E prompt scr2 (w\<lparr>secure := ss\<rparr>)
              else (scr2, w\<lparr>secure := ss\<rparr>)))
      else (scr1, w))"

section \<open>utils/device.ts\<close>

text \<open>
  \<open>getDeviceId\<close>: \<open>fresh1\<close> and \<open>fresh2\<close> are the identifiers that the first and
  the second call of \<open>uuid.v4()\<close> return. When the read fails the fallback is the
  first call; when the write fails it is the second.
\<close>

definition DEVICE_ID_KEY :: string where
  "DEVICE_ID_KEY = ''vaultguard_device_id''"

definition getDeviceId :: "string \<Rightarrow> string \<Rightarrow> SecureStore \<Rightarrow> string \<times> SecureStore" where
  "getDeviceId fresh1 fresh2 ss =
     (case getItemAsync DEVICE_ID_KEY ss of
        (Inl e, ss1) \<Rightarrow> (fresh1, ss1)
      | (Inr deviceId, ss1) \<Rightarrow>
          if falsy deviceId then
            (case setItemAsync DEVICE_ID_KEY fresh1 ss1 of
               (Inl e, ss2) \<Rightarrow> (fresh2, ss2)
             | (Inr u, ss2) \<Rightarrow> (fresh1, ss2))
          else (string_value deviceId, ss1))"

section \<open>services/vault-item.service.ts\<close>


section \<open>Sequences of calls\<close>

text \<open>
  \<open>n\<close> calls of \<open>encryptData\<close> with the same plaintext and key, one after the other
  on the same random source.
\<close>

fun encrypt_many ::
  "('k, 'o) platform \<Rightarrow> string \<Rightarrow> string \<Rightarrow> nat \<Rightarrow> random_source
     \<Rightarrow> (js_error + EncryptedData) list \<times> random_source"
where
  "encrypt_many E p k 0 rng = ([], rng)"
| "encrypt_many E p k (Suc n) rng =
     (case encryptData E p k rng of
        (r, rng') \<Rightarrow> (case encrypt_many E p k n rng' of (rs, rng'') \<Rightarrow> (r # rs, rng'')))"

text \<open>The \<open>i\<close>-th block of 12 bytes of a random source.\<close>

definition draw :: "random_source \<Rightarrow> nat \<Rightarrow> bytes" where
  "draw rng i = map rng [12 * i..<12 * i + 12]"

text \<open>
  The actions of the key lifecycle, of the unlock flow and of the API client, with the
  inputs each takes from the user, the server, the biometric prompt and the identifier
  generator.
\<close>

datatype action =
    Login string string "AuthResponse reply"
  | Register string string string string "AuthResponse reply"
  | Logout "unit reply"
  | LoadSession
  | ClearError
  | LockApp
  | UnlockApp string
  | AppStateChange string
  | HandleUnlock UnlockScreen
  | HandleBiometricUnlock "bool option" UnlockScreen
  | CheckBiometric bool bool "bool option" UnlockScreen
  | GetDeviceId string string
  | RefreshOnUnauthorized "(string \<times> string) reply"

fun perform :: "('k, 'o) platform \<Rightarrow> action \<Rightarrow> world \<Rightarrow> world" where
  "perform E (Login mail pw answer) w = snd (login E mail pw answer w)"
| "perform E (Register mail pw first_name last_name answer) w =
     snd (register E mail pw first_name last_name answer w)"
| "perform E (Logout answer) w = snd (logout answer w)"
| "perform E LoadSession w = loadSession w"
| "perform E ClearError w = clearError w"
| "perform E LockApp w = lockApp w"
| "perform E (UnlockApp pw) w = snd (unlockApp E pw w)"
| "perform E (AppStateChange s) w = handleAppStateChange s w"
| "perform E (HandleUnlock scr) w = handleUnlock E scr w"
| "perform E (HandleBiometricUnlock prompt scr) w = snd (handleBiometricUnlock E prompt scr w)"
| "perform E (CheckBiometric compatible enrolled prompt scr) w =
     snd (checkBiometric E compatible enrolled prompt scr w)"
| "perform E (GetDeviceId fresh1 fresh2) w = w\<lparr>secure := snd (getDeviceId fresh1 fresh2 (secure w))\<rparr>"
| "perform E (RefreshOnUnauthorized answer) w =
     w\<lparr>secure := snd (refreshOnUnauthorized answer (secure w))\<rparr>"

fun run :: "('k, 'o) platform \<Rightarrow> action list \<Rightarrow> world \<Rightarrow> world" where
  "run E [] w = w"
| "run E (a # as) w = run E as (perform E a w)"

text \<open>
  The writes an action may make to the secure store, as pairs of key and value: the two
  bearer tokens of the server's answer (to a login, a registration or a token refresh),
  the master password typed into the unlock screen when biometric unlock is enabled
  there, and the generated device identifier.
\<close>

fun permitted :: "action \<Rightarrow> (string \<times> string) set" where
  "permitted (Login mail pw (Inr r)) =
     {(ACCESS_TOKEN, resp_accessToken r), (REFRESH_TOKEN, resp_refreshToken r)}"
| "permitted (Register mail pw first_name last_name (Inr r)) =
     {(ACCESS_TOKEN, resp_accessToken r), (REFRESH_TOKEN, resp_refreshToken r)}"
| "permitted (HandleUnlock scr) =
     (if biometricEnabled scr then {(''vaultguard_biometric_password'', password scr)} else {})"
| "permitted (GetDeviceId fresh1 fresh2) = {(DEVICE_ID_KEY, fresh1)}"
| "permitted (RefreshOnUnauthorized (Inr (newAccessToken, newRefreshToken))) =
     {(ACCESS_TOKEN, newAccessToken), (REFRESH_TOKEN, newRefreshToken)}"
| "permitted a = {}"

text \<open>
  Two relations for the claim that the derived key never reaches the secure store. Two
  platforms agree on the outcomes of key derivation when, for every password and account
  identifier, either both fail with the same error or both return a key; the keys may
  differ. Two states differ only in the key when the secure stores are equal and every
  field of the store in memory other than \<open>encryptionKey\<close> is equal.
\<close>

definition kdf_outcomes_agree :: "('k, 'o) platform \<Rightarrow> ('k2, 'o2) platform \<Rightarrow> bool" where
  "kdf_outcomes_agree E E' \<longleftrightarrow>
     (\<forall>pw uid.
        (case deriveEncryptionKey E pw uid of
           Inl e \<Rightarrow> deriveEncryptionKey E' pw uid = Inl e
         | Inr k \<Rightarrow> (\<exists>k'. deriveEncryptionKey E' pw uid = Inr k')))"

definition differ_only_in_key :: "world \<Rightarrow> world \<Rightarrow> bool" where
  "differ_only_in_key w w' \<longleftrightarrow>
     secure w = secure w' \<and>
     user (auth w) = user (auth w') \<and>
     accessToken (auth w) = accessToken (auth w') \<and>
     refreshToken (auth w) = refreshToken (auth w') \<and>
     isAuthenticated (auth w) = isAuthenticated (auth w') \<and>
     isLoading (auth w) = isLoading (auth w') \<and>
     error (auth w) = error (auth w')"

section \<open>The reference definitions of the specification\<close>

text \<open>
  Key derivation as the specification words it: PBKDF2 with SHA-256, 100,000 iterations
  and an output of 256 bits, the UTF-8 bytes of the master secret as the password and
  those of the account identifier as the salt, returned in base-64. \<open>None\<close> when the
  primitive is not available.
\<close>

definition kdf_reference :: "('k, 'o) platform \<Rightarrow> string \<Rightarrow> string \<Rightarrow> string option" where
  "kdf_reference E masterSecret accountId =
     (case subtle_importKey E PBKDF2 [UderiveBits] (TextEncoder_encode E masterSecret) of
        None \<Rightarrow> None
      | Some password_key \<Rightarrow>
          map_option (\<lambda>output. base64Encode E (binary_of_bytes output))
            (subtle_deriveBits E password_key (TextEncoder_encode E accountId) 100000 SHA_256 256))"

text \<open>The \<open>InvalidInput\<close> condition of key derivation: its two argument errors.\<close>

definition InvalidInput :: "js_error \<Rightarrow> bool" where
  "InvalidInput e \<longleftrightarrow>
     e = Error ''Master password must be at least 8 characters'' \<or>
     e = Error ''User ID is required as salt''"

text \<open>The opaque decryption failure of the cipher.\<close>

definition DecryptionFailed :: js_error where
  "DecryptionFailed = Error ''Decryption failed - incorrect password or corrupted data''"

text \<open>A record with a field missing or empty, or no record at all.\<close>

definition malformed :: "EncryptedData option \<Rightarrow> bool" where
  "malformed encrypted \<longleftrightarrow>
     (case encrypted of
        None \<Rightarrow> True
      | Some r \<Rightarrow> falsy (encryptedData r) \<or> falsy (iv r) \<or> falsy (authTag r))"

section \<open>Concrete inputs\<close>

definition demo_store :: SecureStore where
  "demo_store = \<lparr> entries = Map.empty, writes = [], faults = [] \<rparr>"

definition demo_world :: world where
  "demo_world = \<lparr> auth = initial_AuthStore, secure = demo_store \<rparr>"

definition demo_answer :: AuthResponse where
  "demo_answer = AuthResponse ''access-1'' ''refresh-1'' ''user-42'' ''a@b.com'' None None"

text \<open>The key that the reference platform derives for the account of the scenarios.\<close>

definition demo_key :: string where
  "demo_key = ''dT8J051nMfvFj1kj7beBSxXfqXM9B9GbZS/5w41XIes=''"

text \<open>
  The key derived on the reference platform from another password, and the record that
  \<open>encryptData\<close> returns there for the plaintext \<open>hello\<close> under \<open>demo_key\<close>.
\<close>

definition wrong_key :: string where
  "wrong_key = ''/iJGao6y1voeQmaKrtL2Gj5ihqrO8hY6XoKmyu4SNlo=''"

definition demo_record :: EncryptedData where
  "demo_record = \<lparr> encryptedData = Some ''s4eFnJg='', iv = Some ''BRYnOElaa3yNnq/A'',
                    authTag = Some ''lpeYmZqbnJ2en6ChoqOkpQ=='' \<rparr>"

text \<open>
  The credential of the scenario of the specification as JSON text, and the record that
  \<open>encryptData\<close> returns for it on the reference platform under \<open>demo_key\<close>.
\<close>

definition demo_credential :: string where
  "demo_credential = ''{\"username\":\"a@b.com\",\"password\":\"p1\"}''"

definition demo_item :: EncryptedData where
  "demo_item =
     \<lparr> encryptedData = Some ''oMCcg5KMa21+fwMSDVd9JmUxNg1FQlcM4vni7/DUyZaB4Lnh9aM='',
       iv = Some ''BRYnOElaa3yNnq/A'',
       authTag = Some ''d3h5ent8fX5/gIGCg4SFhg=='' \<rparr>"

text \<open>
  The state after a registration on the reference platform, the same state locked, and
  the state at a start of the process with both tokens in the secure store.
\<close>

definition unlocked_world :: world where
  "unlocked_world =
     snd (register demo ''a@b.com'' ''Sup3rSecret!'' ''Ada'' ''Byron'' (Inr demo_answer) demo_world)"

definition locked_world :: world where
  "locked_world = lockApp unlocked_world"

definition restart_world :: world where
  "restart_world =
     \<lparr> auth = initial_AuthStore,
       secure = \<lparr> entries = [ACCESS_TOKEN \<mapsto> ''access-1'', REFRESH_TOKEN \<mapsto> ''refresh-1''],
                  writes = [], faults = [] \<rparr> \<rparr>"

text \<open>
  A run through the lifecycle with biometric unlock enabled on the unlock screen, and a
  second platform that derives other keys than the reference platform.
\<close>

definition demo_trace :: "action list" where
  "demo_trace =
     [Register ''a@b.com'' ''Sup3rSecret!'' ''Ada'' ''Byron'' (Inr demo_answer),
      LockApp,
      HandleUnlock \<lparr> password = ''Sup3rSecret!'', biometricAvailable = True,
                     biometricEnabled = True \<rparr>,
      GetDeviceId ''uuid-1'' ''uuid-2'',
      Logout (Inr ())]"

definition demo2 :: "(demo_cryptokey, string) platform" where
  "demo2 = demo\<lparr>subtle_deriveBits :=
     (\<lambda>ck salt iterations h bits.
        map_option (map (\<lambda>b. b + 1)) (demo_deriveBits ck salt iterations h bits))\<rparr>"

text \<open>
  The reference platform with an encryption primitive that rejects every call, and the
  unlocked state with a secure store whose third call from now on fails.
\<close>

definition demo_no_encrypt :: "(demo_cryptokey, string) platform" where
  "demo_no_encrypt = demo\<lparr>subtle_encrypt := (\<lambda>ck nonce tagLength pt. None)\<rparr>"

definition logout_fault_world :: world where
  "logout_fault_world =
     unlocked_world\<lparr>secure := (secure unlocked_world)\<lparr>faults := [False, False, True]\<rparr>\<rparr>"

section \<open>The reference platform meets the contracts\<close>

lemma b64_index_char: "n < 64 \<Longrightarrow> b64_index (b64_char n) = Some n"
  unfolding b64_index_def b64_char_def Let_def
  by (auto simp: of_char_of)

lemma b64_index_pad: "b64_index (CHR ''='') = None"
  by (simp add: b64_index_def)

lemma b64_char_not_pad: "n < 64 \<Longrightarrow> b64_char n \<noteq> CHR ''=''"
  using b64_index_char [of n] b64_index_pad by auto

lemma sextets:
  fixes x y z :: nat
  assumes "x < 256" "y < 256" "z < 256"
  shows "x div 4 < 64" "(x mod 4) * 16 + y div 16 < 64" "(y mod 16) * 4 + z div 64 < 64"
    "z mod 64 < 64" "(x mod 4) * 16 < 64" "(y mod 16) * 4 < 64"
  using assms by auto

lemma recombine:
  fixes x y z :: nat
  assumes "y < 256" "z < 256"
  shows "x div 4 * 4 + ((x mod 4) * 16 + y div 16) div 16 = x"
    "(((x mod 4) * 16 + y div 16) mod 16) * 16 + ((y mod 16) * 4 + z div 64) div 4 = y"
    "(((y mod 16) * 4 + z div 64) mod 4) * 64 + z mod 64 = z"
    "x div 4 * 4 + ((x mod 4) * 16) div 16 = x"
    "(((x mod 4) * 16 + y div 16) mod 16) * 16 + ((y mod 16) * 4) div 4 = y"
proof -
  have "y div 16 < 16" using assms by simp
  then have a: "((x mod 4) * 16 + y div 16) div 16 = x mod 4"
    and b: "((x mod 4) * 16 + y div 16) mod 16 = y div 16" by simp_all
  have "z div 64 < 4" using assms by simp
  then have c: "((y mod 16) * 4 + z div 64) div 4 = y mod 16"
    and d: "((y mod 16) * 4 + z div 64) mod 4 = z div 64" by simp_all
  show "x div 4 * 4 + ((x mod 4) * 16 + y div 16) div 16 = x" unfolding a by simp
  show "(((x mod 4) * 16 + y div 16) mod 16) * 16 + ((y mod 16) * 4 + z div 64) div 4 = y"
    unfolding b c by simp
  show "(((y mod 16) * 4 + z div 64) mod 4) * 64 + z mod 64 = z" unfolding d by simp
  show "x div 4 * 4 + ((x mod 4) * 16) div 16 = x" by simp
  show "(((x mod 4) * 16 + y div 16) mod 16) * 16 + ((y mod 16) * 4) div 4 = y"
    unfolding b by simp
qed

lemma b64_decode_quad:
  assumes "s1 < 64" "s2 < 64" "s3 < 64" "s4 < 64"
  shows "b64_decode (b64_char s1 # b64_char s2 # b64_char s3 # b64_char s4 # rest) =
     map_option (\<lambda>tl. char_of (s1 * 4 + s2 div 16) # char_of ((s2 mod 16) * 16 + s3 div 4)
                   # char_of ((s3 mod 4) * 64 + s4) # tl) (b64_decode rest)"
  using assms by (simp add: b64_index_char b64_char_not_pad)

lemma b64_decode_pad1:
  assumes "s1 < 64" "s2 < 64" "s3 < 64"
  shows "b64_decode [b64_char s1, b64_char s2, b64_char s3, CHR ''=''] =
     Some [char_of (s1 * 4 + s2 div 16), char_of ((s2 mod 16) * 16 + s3 div 4)]"
  using assms by (simp add: b64_index_char b64_char_not_pad)

lemma b64_decode_pad2:
  assumes "s1 < 64" "s2 < 64"
  shows "b64_decode [b64_char s1, b64_char s2, CHR ''='', CHR ''=''] =
     Some [char_of (s1 * 4 + s2 div 16)]"
  using assms by (simp add: b64_index_char)

lemma b64_decode_encode: "b64_decode (b64_encode s) = Some s"
proof (induction s rule: b64_encode.induct)
  case (1 a b c rest)
  define x y z where "x = (of_char a :: nat)" and "y = (of_char b :: nat)" and "z = (of_char c :: nat)"
  have lt: "x < 256" "y < 256" "z < 256"
    by (simp_all add: x_def y_def z_def)
  have enc: "b64_encode (a # b # c # rest) =
      b64_char (x div 4) # b64_char ((x mod 4) * 16 + y div 16) #
      b64_char ((y mod 16) * 4 + z div 64) # b64_char (z mod 64) # b64_encode rest"
    by (simp add: x_def y_def z_def Let_def)
  have abc: "char_of x = a" "char_of y = b" "char_of z = c"
    by (simp_all add: x_def y_def z_def)
  show ?case
    unfolding enc
    by (subst b64_decode_quad) (use lt in \<open>simp_all only: sextets recombine 1 abc option.map\<close>)
next
  case (2 a b)
  define x y where "x = (of_char a :: nat)" and "y = (of_char b :: nat)"
  have lt: "x < 256" "y < 256"
    by (simp_all add: x_def y_def)
  have enc: "b64_encode [a, b] =
      [b64_char (x div 4), b64_char ((x mod 4) * 16 + y div 16), b64_char ((y mod 16) * 4), CHR ''='']"
    by (simp add: x_def y_def Let_def)
  have abc: "char_of x = a" "char_of y = b"
    by (simp_all add: x_def y_def)
  show ?case
    unfolding enc
    by (subst b64_decode_pad1) (use lt in \<open>simp_all only: sextets recombine abc\<close>)
next
  case (3 a)
  define x where "x = (of_char a :: nat)"
  have lt: "x < 256"
    by (simp_all add: x_def)
  have enc: "b64_encode [a] = [b64_char (x div 4), b64_char ((x mod 4) * 16), CHR ''='', CHR ''='']"
    by (simp add: x_def Let_def)
  have abc: "char_of x = a"
    by (simp_all add: x_def)
  show ?case
    unfolding enc
    by (subst b64_decode_pad2) (use lt in \<open>simp_all only: sextets recombine abc\<close>)
next
  case 4
  then show ?case by simp
qed

lemma unat_byte_mod: "unat (b :: byte) mod 256 = unat b"
  using unsigned_less [of b, where ?'a = nat] by simp

lemma of_char_byte_mod: "unat (word_of_nat (of_char c) :: byte) = of_char c"
proof -
  have "unat (word_of_nat (of_char c) :: byte) = of_char c mod 256"
    by (simp add: unat_of_nat)
  also have "\<dots> = of_char c"
    by (simp only: of_char_mod_256)
  finally show ?thesis .
qed

lemma bytes_of_binary_of_bytes: "bytes_of_binary (binary_of_bytes bs) = bs"
  by (induction bs) (simp_all add: bytes_of_binary_def binary_of_bytes_def of_char_of unat_byte_mod)

lemma binary_of_bytes_of_binary: "binary_of_bytes (bytes_of_binary s) = s"
  by (induction s) (simp_all add: bytes_of_binary_def binary_of_bytes_def of_char_byte_mod)

lemma demo_mask_length: "length (demo_mask raw nonce bs) = length bs"
  by (simp add: demo_mask_def)

lemma demo_mask_involution: "demo_mask raw nonce (demo_mask raw nonce bs) = bs"
  by (simp add: demo_mask_def list_eq_iff_nth_eq nth_enumerate_eq xor.assoc)

lemma demo_tag_length: "length (demo_tag raw nonce ct) = 16"
  by (simp add: demo_tag_def)

lemma demo_base64_laws: "base64_laws demo"
  by (simp add: base64_laws_def demo_def b64_decode_encode)

lemma demo_text_laws: "text_laws demo"
  by (simp add: text_laws_def demo_def bytes_of_binary_def)

lemma demo_aes_gcm_laws: "aes_gcm_laws demo"
  unfolding aes_gcm_laws_def
  by (auto simp: demo_def demo_importKey_def demo_encrypt_def demo_decrypt_def
      demo_mask_length demo_tag_length demo_mask_involution split: if_splits)

lemma demo_platform_laws: "platform_laws demo"
  by (simp add: platform_laws_def demo_base64_laws demo_text_laws demo_aes_gcm_laws)


section \<open>Evaluation on the reference platform\<close>

lemma upt_0_numeral: "[0..<numeral n] = 0 # [Suc 0..<numeral n]"
  by (simp add: upt_conv_Cons)

lemma upt_1_numeral:
  "[Suc 0..<numeral n] = (if Suc 0 < numeral n then Suc 0 # [2..<numeral n] else [])"
  by (simp add: upt_conv_Cons numeral_2_eq_2)

lemmas demo_simps = upt_0_numeral upt_1_numeral char_of_eq_iff demo_def demo_importKey_def demo_encrypt_def demo_decrypt_def
  demo_deriveBits_def demo_mask_def demo_tag_def demo_pad_def demo_parse_def demo_rng_def
  b64_char_def b64_index_def bytes_of_binary_def binary_of_bytes_def bytesToBase64_def
  base64ToBytes_def stringToBytes_def pbkdf2Sha256_def PBKDF2_ITERATIONS_def KEY_LENGTH_def
  getRandomValues_def Let_def

lemma demo_key_derived: "deriveEncryptionKey demo ''Sup3rSecret!'' ''user-42'' = Inr demo_key"
  by (simp add: demo_simps deriveEncryptionKey_def demo_key_def)

lemma demo_key_valid: "valid_key demo demo_key"
  by (simp add: demo_simps valid_key_def demo_key_def)

section \<open>The base-64 helpers\<close>

lemma base64ToBytes_bytesToBase64:
  assumes "base64_laws E"
  shows "base64ToBytes E (bytesToBase64 E bs) = Some bs"
  using assms
  by (simp add: base64_laws_def base64ToBytes_def bytesToBase64_def bytes_of_binary_of_bytes)

lemma bytesToBase64_inject:
  assumes "base64_laws E" and "bytesToBase64 E a = bytesToBase64 E b"
  shows "a = b"
proof -
  have "Some a = base64ToBytes E (bytesToBase64 E a)"
    using assms(1) by (simp add: base64ToBytes_bytesToBase64)
  also have "\<dots> = Some b"
    using assms by (simp add: base64ToBytes_bytesToBase64)
  finally show ?thesis by simp
qed

lemma base64ToBytes_empty:
  assumes "base64_laws E"
  shows "base64ToBytes E [] = Some []"
  using assms by (simp add: base64_laws_def base64ToBytes_def bytes_of_binary_def)

lemma bytesToBase64_nonempty:
  assumes "base64_laws E" and "bs \<noteq> []"
  shows "bytesToBase64 E bs \<noteq> []"
proof
  assume "bytesToBase64 E bs = []"
  then have "base64ToBytes E [] = Some bs"
    using assms(1) base64ToBytes_bytesToBase64 [of E bs] by simp
  then show False
    using assms base64ToBytes_empty [of E] by simp
qed

lemma valid_key_nonempty:
  assumes "base64_laws E" and "valid_key E k"
  shows "k \<noteq> []"
proof
  assume "k = []"
  then show False
    using assms base64ToBytes_empty [of E] by (simp add: valid_key_def)
qed

section \<open>Encryption followed by decryption\<close>

lemma getRandomValues_length: "length (fst (getRandomValues n rng)) = n"
  by (simp add: getRandomValues_def)

lemma encryptData_valid:
  assumes laws: "platform_laws E" and key: "valid_key E k" and p: "p \<noteq> []"
  obtains ct where
    "subtle_decrypt E (the (subtle_importKey E (AES_GCM 256) [Udecrypt] (the (base64ToBytes E k))))
        (fst (getRandomValues 12 rng)) 128 ct = Some (TextEncoder_encode E p)"
    "length ct = length (TextEncoder_encode E p) + 16"
    "encryptData E p k rng =
       (Inr \<lparr> encryptedData = Some (bytesToBase64 E (take (length ct - 16) ct)),
               iv = Some (bytesToBase64 E (fst (getRandomValues 12 rng))),
               authTag = Some (bytesToBase64 E (drop (length ct - 16) ct)) \<rparr>,
        snd (getRandomValues 12 rng))"
proof -
  from key obtain raw ek dk where raw: "base64ToBytes E k = Some raw"
    and ek: "subtle_importKey E (AES_GCM 256) [Uencrypt] raw = Some ek"
    and dk: "subtle_importKey E (AES_GCM 256) [Udecrypt] raw = Some dk"
    by (auto simp: valid_key_def split: option.splits)
  define nonce where "nonce = fst (getRandomValues 12 rng)"
  have "length nonce = 12"
    by (simp add: nonce_def getRandomValues_length)
  with laws ek dk obtain ct where
    enc: "subtle_encrypt E ek nonce 128 (TextEncoder_encode E p) = Some ct"
    and len: "length ct = length (TextEncoder_encode E p) + 16"
    and dec: "subtle_decrypt E dk nonce 128 ct = Some (TextEncoder_encode E p)"
    unfolding platform_laws_def aes_gcm_laws_def
    by (fastforce split: option.splits)
  have k: "k \<noteq> []"
    using laws key valid_key_nonempty by (auto simp: platform_laws_def)
  have "encryptData E p k rng =
       (Inr \<lparr> encryptedData = Some (bytesToBase64 E (take (length ct - 16) ct)),
               iv = Some (bytesToBase64 E nonce),
               authTag = Some (bytesToBase64 E (drop (length ct - 16) ct)) \<rparr>,
        snd (getRandomValues 12 rng))"
    using p k raw ek enc
    by (simp add: encryptData_def encrypt_try_def nonce_def split_beta Let_def)
  then show thesis
    using that [of ct] dec len raw dk by (simp add: nonce_def)
qed

lemma decryptData_of_parts:
  assumes laws: "platform_laws E" and key: "valid_key E k"
    and dec: "subtle_decrypt E (the (subtle_importKey E (AES_GCM 256) [Udecrypt] (the (base64ToBytes E k))))
        nonce 128 ct = Some pt"
    and len: "length ct = length pt + 16" and pt: "pt \<noteq> []" and nonce: "nonce \<noteq> []"
  shows "decryptData E (Some \<lparr> encryptedData = Some (bytesToBase64 E (take (length ct - 16) ct)),
               iv = Some (bytesToBase64 E nonce),
               authTag = Some (bytesToBase64 E (drop (length ct - 16) ct)) \<rparr>) k
         = Inr (TextDecoder_decode E pt)"
proof -
  have b64: "base64_laws E"
    using laws by (simp add: platform_laws_def)
  from key obtain raw dk where raw: "base64ToBytes E k = Some raw"
    and dk: "subtle_importKey E (AES_GCM 256) [Udecrypt] raw = Some dk"
    by (auto simp: valid_key_def split: option.splits)
  have k: "k \<noteq> []"
    using b64 key by (rule valid_key_nonempty)
  have c: "take (length ct - 16) ct \<noteq> []" and t: "drop (length ct - 16) ct \<noteq> []"
    using len pt by auto
  have fields: "bytesToBase64 E (take (length ct - 16) ct) \<noteq> []"
    "bytesToBase64 E nonce \<noteq> []" "bytesToBase64 E (drop (length ct - 16) ct) \<noteq> []"
    using b64 c t nonce by (simp_all add: bytesToBase64_nonempty)
  have "decrypt_try E (bytesToBase64 E (take (length ct - 16) ct)) (bytesToBase64 E nonce)
          (bytesToBase64 E (drop (length ct - 16) ct)) k = Some (TextDecoder_decode E pt)"
    using raw dk dec b64 by (simp add: decrypt_try_def base64ToBytes_bytesToBase64)
  then show ?thesis
    using fields k by (simp add: decryptData_def)
qed

lemma roundtrip_text:
  assumes laws: "platform_laws E" and key: "valid_key E k" and p: "p \<noteq> []"
  shows "\<exists>r. encryptData E p k rng = (Inr r, snd (getRandomValues 12 rng)) \<and>
             iv r = Some (bytesToBase64 E (fst (getRandomValues 12 rng))) \<and>
             decryptData E (Some r) k = Inr (TextDecoder_decode E (TextEncoder_encode E p))"
proof -
  from laws key p obtain ct where
    dec: "subtle_decrypt E (the (subtle_importKey E (AES_GCM 256) [Udecrypt] (the (base64ToBytes E k))))
        (fst (getRandomValues 12 rng)) 128 ct = Some (TextEncoder_encode E p)"
    and len: "length ct = length (TextEncoder_encode E p) + 16"
    and enc: "encryptData E p k rng =
       (Inr \<lparr> encryptedData = Some (bytesToBase64 E (take (length ct - 16) ct)),
               iv = Some (bytesToBase64 E (fst (getRandomValues 12 rng))),
               authTag = Some (bytesToBase64 E (drop (length ct - 16) ct)) \<rparr>,
        snd (getRandomValues 12 rng))"
    by (rule encryptData_valid)
  have pt: "TextEncoder_encode E p \<noteq> []"
    using laws p by (simp add: platform_laws_def text_laws_def)
  have nonce: "fst (getRandomValues 12 rng) \<noteq> []"
    using getRandomValues_length [of 12 rng] by auto
  have "decryptData E (Some \<lparr> encryptedData = Some (bytesToBase64 E (take (length ct - 16) ct)),
               iv = Some (bytesToBase64 E (fst (getRandomValues 12 rng))),
               authTag = Some (bytesToBase64 E (drop (length ct - 16) ct)) \<rparr>) k
         = Inr (TextDecoder_decode E (TextEncoder_encode E p))"
    using laws key dec len pt nonce by (rule decryptData_of_parts)
  with enc show ?thesis by simp
qed

lemma roundtrip:
  assumes laws: "platform_laws E" and key: "valid_key E k" and p: "p \<noteq> []"
    and codec: "TextDecoder_decode E (TextEncoder_encode E p) = p"
  shows "\<exists>r. encryptData E p k rng = (Inr r, snd (getRandomValues 12 rng)) \<and>
             iv r = Some (bytesToBase64 E (fst (getRandomValues 12 rng))) \<and>
             decryptData E (Some r) k = Inr p"
  using roundtrip_text [OF laws key p, of rng] codec by simp


section \<open>Repeated encryption\<close>

lemma getRandomValues_draw: "fst (getRandomValues 12 rng) = draw rng 0"
  by (simp add: getRandomValues_def draw_def)

lemma draw_shift: "draw (snd (getRandomValues 12 rng)) i = draw rng (Suc i)"
  by (simp add: getRandomValues_def draw_def list_eq_iff_nth_eq add.commute add.left_commute)

lemma encryptData_iv:
  assumes "encryptData E q k' rng = (Inr r, rng')"
  shows "iv r = Some (bytesToBase64 E (draw rng 0)) \<and> rng' = snd (getRandomValues 12 rng)"
  using assms
  by (auto simp: encryptData_def encrypt_try_def getRandomValues_draw Let_def split_beta
      split: if_splits option.splits prod.splits)

lemma encrypt_many_records:
  assumes laws: "platform_laws E" and key: "valid_key E k" and p: "p \<noteq> []"
  shows "\<exists>rs. fst (encrypt_many E p k n rng) = map Inr rs \<and> length rs = n \<and>
      (\<forall>i<n. iv (rs ! i) = Some (bytesToBase64 E (draw rng i)) \<and>
              decryptData E (Some (rs ! i)) k = Inr (TextDecoder_decode E (TextEncoder_encode E p)))"
proof (induction n arbitrary: rng)
  case 0
  show ?case by simp
next
  case (Suc n)
  from roundtrip_text [OF laws key p, of rng] obtain r where
    enc: "encryptData E p k rng = (Inr r, snd (getRandomValues 12 rng))"
    and ivr: "iv r = Some (bytesToBase64 E (fst (getRandomValues 12 rng)))"
    and dec: "decryptData E (Some r) k = Inr (TextDecoder_decode E (TextEncoder_encode E p))"
    by blast
  from Suc.IH [of "snd (getRandomValues 12 rng)"] obtain rs where
    rs: "fst (encrypt_many E p k n (snd (getRandomValues 12 rng))) = map Inr rs"
    and len: "length rs = n"
    and each: "\<forall>i<n. iv (rs ! i) = Some (bytesToBase64 E (draw (snd (getRandomValues 12 rng)) i)) \<and>
              decryptData E (Some (rs ! i)) k = Inr (TextDecoder_decode E (TextEncoder_encode E p))"
    by blast
  have "fst (encrypt_many E p k (Suc n) rng) = map Inr (r # rs)"
    using enc rs by (simp add: split_beta)
  moreover have "length (r # rs) = Suc n"
    using len by simp
  moreover have "iv ((r # rs) ! i) = Some (bytesToBase64 E (draw rng i)) \<and>
      decryptData E (Some ((r # rs) ! i)) k = Inr (TextDecoder_decode E (TextEncoder_encode E p))" if "i < Suc n" for i
  proof (cases i)
    case 0
    then show ?thesis
      using ivr dec by (simp add: getRandomValues_draw)
  next
    case (Suc j)
    then show ?thesis
      using each that by (simp add: draw_shift)
  qed
  ultimately show ?case by blast
qed

lemma encryptData_no_draw:
  assumes "q = [] \<or> k' = [] \<or> base64ToBytes E k' = None \<or>
    (\<exists>raw. base64ToBytes E k' = Some raw \<and> subtle_importKey E (AES_GCM 256) [Uencrypt] raw = None)"
  shows "\<exists>e. encryptData E q k' rng = (Inl e, rng)"
  using assms by (auto simp: encryptData_def encrypt_try_def)

lemma encryptData_draw_then_fail:
  assumes "q \<noteq> []" and "k' \<noteq> []" and "base64ToBytes E k' = Some raw"
    and "subtle_importKey E (AES_GCM 256) [Uencrypt] raw = Some ck"
    and "subtle_encrypt E ck (draw rng 0) 128 (TextEncoder_encode E q) = None"
  shows "encryptData E q k' rng = (Inl (Error ''Failed to encrypt data''), snd (getRandomValues 12 rng))"
  using assms
  by (simp add: encryptData_def encrypt_try_def split_beta Let_def getRandomValues_draw)

section \<open>Runs of the cipher on the reference platform\<close>

lemmas crypto_simps = encryptData_def encrypt_try_def decryptData_def decrypt_try_def
  decryptObject_def deriveEncryptionKey_def

lemma demo_record_encrypted:
  "fst (encryptData demo ''hello'' demo_key demo_rng) = Inr demo_record"
  by (simp add: crypto_simps demo_simps demo_key_def demo_record_def)



lemma demo_item_encrypted:
  "fst (encryptData demo demo_credential demo_key demo_rng) = Inr demo_item"
  by (simp add: crypto_simps demo_simps demo_key_def demo_item_def demo_credential_def)

lemma demo_item_decrypts:
  "decryptData demo (Some demo_item) demo_key = Inr demo_credential"
  by (simp add: crypto_simps demo_simps demo_key_def demo_item_def demo_credential_def)

lemma demo_item_wrong_key:
  "decryptData demo (Some demo_item) wrong_key = Inl DecryptionFailed"
  by (simp add: crypto_simps demo_simps wrong_key_def demo_item_def DecryptionFailed_def)




section \<open>Runs of the store on the reference platform\<close>

lemmas store_simps = next_fault_def getItemAsync_def setItemAsync_def deleteItemAsync_def
  saveTokens_def clearTokens_def AuthService_login_def AuthService_register_def
  AuthService_logout_def

lemmas key_simps = ACCESS_TOKEN_def REFRESH_TOKEN_def DEVICE_ID_KEY_def BIOMETRIC_ENABLED_def

lemma wrong_key_derived: "deriveEncryptionKey demo ''WrongPassword1'' ''user-42'' = Inr wrong_key"
  by (simp add: demo_simps deriveEncryptionKey_def wrong_key_def)

lemma unlocked_world_auth:
  "auth unlocked_world =
     \<lparr> user = Some \<lparr> id' = ''user-42'', email = ''a@b.com'', firstName = None, lastName = None \<rparr>,
       accessToken = Some ''access-1'', refreshToken = Some ''refresh-1'',
       encryptionKey = Some demo_key, isAuthenticated = True, isLoading = False, error = None \<rparr>"
  by (simp add: unlocked_world_def register_def store_simps demo_world_def demo_store_def
      demo_answer_def demo_key_derived initial_AuthStore_def)

lemma unlocked_world_secure:
  "faults (secure unlocked_world) = [] \<and>
   writes (secure unlocked_world) =
     [(ACCESS_TOKEN, ''access-1''), (REFRESH_TOKEN, ''refresh-1''),
      (ACCESS_TOKEN, ''access-1''), (REFRESH_TOKEN, ''refresh-1'')]"
  by (simp add: unlocked_world_def register_def store_simps demo_world_def demo_store_def
      demo_answer_def demo_key_derived initial_AuthStore_def)

lemma demo_trace_writes:
  "writes (secure (run demo demo_trace demo_world)) =
     [(ACCESS_TOKEN, ''access-1''), (REFRESH_TOKEN, ''refresh-1''),
      (ACCESS_TOKEN, ''access-1''), (REFRESH_TOKEN, ''refresh-1''),
      (''vaultguard_biometric_password'', ''Sup3rSecret!''), (DEVICE_ID_KEY, ''uuid-1'')]"
  by (simp add: demo_trace_def register_def store_simps demo_world_def demo_store_def
      demo_answer_def demo_key_derived initial_AuthStore_def lockApp_def handleUnlock_def
      clearError_def unlockApp_def getDeviceId_def logout_def key_simps)


section \<open>Clearing the tokens, restoring the session\<close>

lemma clearTokens_ok:
  assumes "clearTokens ss = (Inr u, ss')"
  shows "entries ss' ACCESS_TOKEN = None \<and> entries ss' REFRESH_TOKEN = None"
  using assms
  by (auto simp: clearTokens_def deleteItemAsync_def next_fault_def key_simps
      split: list.splits if_splits prod.splits sum.splits bool.splits)

lemma clearTokens_no_faults:
  assumes "faults ss = []"
  shows "fst (clearTokens ss) = Inr () \<and> faults (snd (clearTokens ss)) = []"
  using assms by (simp add: clearTokens_def deleteItemAsync_def next_fault_def)

lemma loadSession_user: "user (auth (loadSession w)) = user (auth w)"
  by (simp add: loadSession_def Let_def split: prod.splits sum.splits)

lemma loadSession_encryptionKey: "encryptionKey (auth (loadSession w)) = encryptionKey (auth w)"
  by (simp add: loadSession_def Let_def split: prod.splits sum.splits)

section \<open>Writes to the secure store\<close>

lemma getItemAsync_writes: "writes (snd (getItemAsync k ss)) = writes ss"
  by (simp add: getItemAsync_def next_fault_def split: list.splits bool.splits)

lemma deleteItemAsync_writes: "writes (snd (deleteItemAsync k ss)) = writes ss"
  by (simp add: deleteItemAsync_def next_fault_def split: list.splits bool.splits)

lemma setItemAsync_writes:
  "set (writes (snd (setItemAsync k v ss))) \<subseteq> insert (k, v) (set (writes ss))"
  by (auto simp: setItemAsync_def next_fault_def split: list.splits bool.splits)

lemma saveTokens_writes:
  "set (writes (snd (saveTokens a r ss))) \<subseteq>
     {(ACCESS_TOKEN, a), (REFRESH_TOKEN, r)} \<union> set (writes ss)"
proof -
  obtain r1 ss1 where one: "setItemAsync ACCESS_TOKEN a ss = (r1, ss1)"
    by (cases "setItemAsync ACCESS_TOKEN a ss")
  have w1: "set (writes ss1) \<subseteq> insert (ACCESS_TOKEN, a) (set (writes ss))"
    using setItemAsync_writes [of ACCESS_TOKEN a ss] one by simp
  have w2: "set (writes (snd (setItemAsync REFRESH_TOKEN r ss1))) \<subseteq>
      insert (REFRESH_TOKEN, r) (set (writes ss1))"
    by (rule setItemAsync_writes)
  show ?thesis
    using w1 w2 by (cases r1) (auto simp: saveTokens_def one)
qed

lemma clearTokens_writes: "writes (snd (clearTokens ss)) = writes ss"
proof -
  obtain r1 ss1 where one: "deleteItemAsync ACCESS_TOKEN ss = (r1, ss1)"
    by (cases "deleteItemAsync ACCESS_TOKEN ss")
  have "writes ss1 = writes ss"
    using deleteItemAsync_writes [of ACCESS_TOKEN ss] one by simp
  then show ?thesis
    using deleteItemAsync_writes [of REFRESH_TOKEN ss1]
    by (cases r1) (simp_all add: clearTokens_def one)
qed

lemma AuthService_login_writes:
  "set (writes (snd (AuthService_login answer ss))) \<subseteq>
     permitted (Login mail pw answer) \<union> set (writes ss)"
proof (cases answer)
  case (Inl ae)
  then show ?thesis by (simp add: AuthService_login_def)
next
  case (Inr authData)
  then show ?thesis
    using saveTokens_writes [of "resp_accessToken authData" "resp_refreshToken authData" ss]
    by (auto simp: AuthService_login_def split: prod.splits sum.splits)
qed

lemma AuthService_register_writes:
  "set (writes (snd (AuthService_register answer ss))) \<subseteq>
     permitted (Register mail pw first_name last_name answer) \<union> set (writes ss)"
proof (cases answer)
  case (Inl ae)
  then show ?thesis by (simp add: AuthService_register_def)
next
  case (Inr authData)
  then show ?thesis
    using saveTokens_writes [of "resp_accessToken authData" "resp_refreshToken authData" ss]
    by (auto simp: AuthService_register_def split: prod.splits sum.splits)
qed

lemma AuthService_register_Inr:
  assumes "AuthService_register answer ss = (Inr authResponse, ss')"
  shows "answer = Inr authResponse"
  using assms by (auto simp: AuthService_register_def split: sum.splits prod.splits)

lemma login_writes:
  "set (writes (secure (snd (login E mail pw answer w)))) \<subseteq>
     permitted (Login mail pw answer) \<union> set (writes (secure w))"
  using AuthService_login_writes [of answer "secure w" mail pw]
  by (auto simp: login_def Let_def split: prod.splits sum.splits)

lemma register_writes:
  "set (writes (secure (snd (register E mail pw first_name last_name answer w)))) \<subseteq>
     permitted (Register mail pw first_name last_name answer) \<union> set (writes (secure w))"
proof -
  obtain r1 ss1 where one: "AuthService_register answer (secure w) = (r1, ss1)"
    by (cases "AuthService_register answer (secure w)")
  have w1: "set (writes ss1) \<subseteq>
      permitted (Register mail pw first_name last_name answer) \<union> set (writes (secure w))"
    using AuthService_register_writes [of answer "secure w" mail pw first_name last_name] one
    by simp
  show ?thesis
  proof (cases r1)
    case (Inl e)
    then show ?thesis
      using w1 by (simp add: register_def one)
  next
    case (Inr authResponse)
    then have answer: "answer = Inr authResponse"
      using one AuthService_register_Inr by blast
    have w2: "set (writes (snd (saveTokens (resp_accessToken authResponse)
          (resp_refreshToken authResponse) ss1))) \<subseteq>
        permitted (Register mail pw first_name last_name answer) \<union> set (writes ss1)"
      using saveTokens_writes [of "resp_accessToken authResponse"
          "resp_refreshToken authResponse" ss1]
      by (simp add: answer)
    show ?thesis
      using w1 w2 Inr
      by (auto simp: register_def one Let_def split: sum.splits prod.splits)
  qed
qed

lemma logout_writes: "writes (secure (snd (logout answer w))) = writes (secure w)"
proof -
  obtain r1 ss1 where one: "AuthService_logout answer (secure w) = (r1, ss1)"
    by (cases "AuthService_logout answer (secure w)")
  have "writes ss1 = writes (secure w)"
    using clearTokens_writes [of "secure w"] one by (simp add: AuthService_logout_def)
  then show ?thesis
    using clearTokens_writes [of ss1]
    by (auto simp: logout_def one split: prod.splits sum.splits)
qed

lemma loadSession_writes: "writes (secure (loadSession w)) = writes (secure w)"
proof -
  obtain r1 ss1 where one: "getItemAsync ACCESS_TOKEN (secure w) = (r1, ss1)"
    by (cases "getItemAsync ACCESS_TOKEN (secure w)")
  have w1: "writes ss1 = writes (secure w)"
    using getItemAsync_writes [of ACCESS_TOKEN "secure w"] one by simp
  have w2: "writes (snd (getItemAsync REFRESH_TOKEN ss1)) = writes ss1"
    by (rule getItemAsync_writes)
  show ?thesis
    using w1 w2
    by (auto simp: loadSession_def one Let_def split: prod.splits sum.splits)
qed

lemma unlockApp_secure: "secure (snd (unlockApp E pw w)) = secure w"
  by (simp add: unlockApp_def Let_def split: option.splits sum.splits)

lemma handleUnlock_writes:
  "set (writes (secure (handleUnlock E scr w))) \<subseteq>
     permitted (HandleUnlock scr) \<union> set (writes (secure w))"
proof -
  obtain r1 w1 where one: "unlockApp E (password scr) (clearError w) = (r1, w1)"
    by (cases "unlockApp E (password scr) (clearError w)")
  have s1: "secure w1 = secure w"
    using unlockApp_secure [of E "password scr" "clearError w"] one
    by (simp add: clearError_def)
  show ?thesis
    using setItemAsync_writes [of "''vaultguard_biometric_password''" "password scr" "secure w"]
    by (auto simp: handleUnlock_def one s1 split: sum.splits prod.splits)
qed

lemma handleBiometricUnlock_writes:
  "writes (secure (snd (handleBiometricUnlock E prompt scr w))) = writes (secure w)"
  using getItemAsync_writes [of "''vaultguard_biometric_password''" "secure w"]
  by (auto simp: handleBiometricUnlock_def unlockApp_secure
      split: option.splits prod.splits sum.splits)

lemma checkBiometric_writes:
  "writes (secure (snd (checkBiometric E compatible enrolled prompt scr w))) = writes (secure w)"
  using getItemAsync_writes [of BIOMETRIC_ENABLED "secure w"]
  by (auto simp: checkBiometric_def Let_def handleBiometricUnlock_writes
      split: prod.splits sum.splits)

lemma checkBiometric_enabled:
  assumes "biometricEnabled (fst (checkBiometric E compatible enrolled prompt scr w))"
  shows "biometricEnabled scr \<or>
     (compatible \<and> enrolled \<and> entries (secure w) BIOMETRIC_ENABLED = Some ''true'')"
  using assms
  by (auto simp: checkBiometric_def handleBiometricUnlock_def getItemAsync_def next_fault_def
      Let_def split: if_splits prod.splits sum.splits option.splits list.splits bool.splits)

lemma getDeviceId_writes:
  "set (writes (snd (getDeviceId fresh1 fresh2 ss))) \<subseteq>
     permitted (GetDeviceId fresh1 fresh2) \<union> set (writes ss)"
proof -
  obtain r1 ss1 where one: "getItemAsync DEVICE_ID_KEY ss = (r1, ss1)"
    by (cases "getItemAsync DEVICE_ID_KEY ss")
  have w1: "writes ss1 = writes ss"
    using getItemAsync_writes [of DEVICE_ID_KEY ss] one by simp
  show ?thesis
    using setItemAsync_writes [of DEVICE_ID_KEY fresh1 ss1] w1
    by (auto simp: getDeviceId_def one split: sum.splits prod.splits)
qed

lemma refreshOnUnauthorized_writes:
  "set (writes (snd (refreshOnUnauthorized answer ss))) \<subseteq>
     permitted (RefreshOnUnauthorized answer) \<union> set (writes ss)"
proof -
  obtain r1 ss1 where one: "getItemAsync REFRESH_TOKEN ss = (r1, ss1)"
    by (cases "getItemAsync REFRESH_TOKEN ss")
  have w1: "writes ss1 = writes ss"
    using getItemAsync_writes [of REFRESH_TOKEN ss] one by simp
  show ?thesis
  proof (cases answer)
    case (Inl ae)
    then show ?thesis
      using w1 by (auto simp: refreshOnUnauthorized_def one clearTokens_writes split: sum.splits)
  next
    case (Inr tokens)
    obtain a r where tokens: "tokens = (a, r)"
      by (cases tokens)
    obtain r2 ss2 where two: "setItemAsync ACCESS_TOKEN a ss1 = (r2, ss2)"
      by (cases "setItemAsync ACCESS_TOKEN a ss1")
    obtain r3 ss3 where three: "setItemAsync REFRESH_TOKEN r ss2 = (r3, ss3)"
      by (cases "setItemAsync REFRESH_TOKEN r ss2")
    have w2: "set (writes ss2) \<subseteq> insert (ACCESS_TOKEN, a) (set (writes ss))"
      using setItemAsync_writes [of ACCESS_TOKEN a ss1] two w1 by simp
    have w3: "set (writes ss3) \<subseteq> insert (REFRESH_TOKEN, r) (set (writes ss2))"
      using setItemAsync_writes [of REFRESH_TOKEN r ss2] three by simp
    show ?thesis
      using w1 w2 w3
      by (auto simp: refreshOnUnauthorized_def one two three Inr tokens clearTokens_writes
          split: sum.splits)
  qed
qed

lemma perform_writes:
  "set (writes (secure (perform E a w))) \<subseteq> permitted a \<union> set (writes (secure w))"
proof (cases a)
  case (Login mail pw answer)
  then show ?thesis using login_writes [of E mail pw answer w] by simp
next
  case (Register mail pw first_name last_name answer)
  then show ?thesis using register_writes [of E mail pw first_name last_name answer w] by simp
next
  case (Logout answer)
  then show ?thesis by (simp add: logout_writes)
next
  case LoadSession
  then show ?thesis by (simp add: loadSession_writes)
next
  case ClearError
  then show ?thesis by (simp add: clearError_def)
next
  case LockApp
  then show ?thesis by (simp add: lockApp_def)
next
  case (UnlockApp pw)
  then show ?thesis by (simp add: unlockApp_secure)
next
  case (AppStateChange s)
  then show ?thesis by (simp add: handleAppStateChange_def lockApp_def)
next
  case (HandleUnlock scr)
  then show ?thesis using handleUnlock_writes [of E scr w] by simp
next
  case (HandleBiometricUnlock prompt scr)
  then show ?thesis by (simp add: handleBiometricUnlock_writes)
next
  case (CheckBiometric compatible enrolled prompt scr)
  then show ?thesis by (simp add: checkBiometric_writes)
next
  case (GetDeviceId fresh1 fresh2)
  then show ?thesis using getDeviceId_writes [of fresh1 fresh2 "secure w"] by simp
next
  case (RefreshOnUnauthorized answer)
  then show ?thesis using refreshOnUnauthorized_writes [of answer "secure w"] by simp
qed

lemma run_writes:
  "set (writes (secure (run E as w))) \<subseteq> set (writes (secure w)) \<union> (\<Union>a\<in>set as. permitted a)"
proof (induction as arbitrary: w)
  case Nil
  show ?case by simp
next
  case (Cons a as)
  have "set (writes (secure (run E as (perform E a w)))) \<subseteq>
      set (writes (secure (perform E a w))) \<union> (\<Union>a\<in>set as. permitted a)"
    by (rule Cons.IH)
  then show ?case
    using perform_writes [of E a w] by auto
qed


section \<open>The secure store does not depend on the key\<close>

lemma kdf_outcomes_cases:
  assumes "kdf_outcomes_agree E E'"
  obtains (fails) e where "deriveEncryptionKey E pw uid = Inl e" "deriveEncryptionKey E' pw uid = Inl e"
  | (derives) k k' where "deriveEncryptionKey E pw uid = Inr k" "deriveEncryptionKey E' pw uid = Inr k'"
proof (cases "deriveEncryptionKey E pw uid")
  case (Inl e)
  then have "deriveEncryptionKey E' pw uid = Inl e"
    using assms by (auto simp: kdf_outcomes_agree_def split: sum.splits)
  with Inl show ?thesis by (rule fails)
next
  case (Inr k)
  then obtain k' where "deriveEncryptionKey E' pw uid = Inr k'"
    using assms by (auto simp: kdf_outcomes_agree_def split: sum.splits)
  with Inr show ?thesis by (rule derives)
qed

lemma login_differ:
  assumes "kdf_outcomes_agree E E'" and "differ_only_in_key w w'"
  shows "fst (login E mail pw answer w) = fst (login E' mail pw answer w') \<and>
     differ_only_in_key (snd (login E mail pw answer w)) (snd (login E' mail pw answer w'))"
proof -
  obtain r1 ss1 where one: "AuthService_login answer (secure w) = (r1, ss1)"
    by (cases "AuthService_login answer (secure w)")
  then have one': "AuthService_login answer (secure w') = (r1, ss1)"
    using assms(2) by (simp add: differ_only_in_key_def)
  show ?thesis
  proof (cases r1)
    case (Inl e)
    then show ?thesis
      using assms(2) by (simp add: login_def one one' differ_only_in_key_def)
  next
    case (Inr authResponse)
    consider (fails) e where "deriveEncryptionKey E pw (userId authResponse) = Inl e"
        "deriveEncryptionKey E' pw (userId authResponse) = Inl e"
      | (derives) k k' where "deriveEncryptionKey E pw (userId authResponse) = Inr k"
        "deriveEncryptionKey E' pw (userId authResponse) = Inr k'"
      using kdf_outcomes_cases [OF assms(1), of pw "userId authResponse"] by blast
    then show ?thesis
    proof cases
      case (fails e)
      then show ?thesis
        using assms(2) by (simp add: login_def one one' Inr differ_only_in_key_def)
    next
      case (derives k k')
      then show ?thesis
        using assms(2) by (simp add: login_def one one' Inr differ_only_in_key_def)
    qed
  qed
qed

lemma register_differ:
  assumes "kdf_outcomes_agree E E'" and "differ_only_in_key w w'"
  shows "fst (register E mail pw first_name last_name answer w) =
       fst (register E' mail pw first_name last_name answer w') \<and>
     differ_only_in_key (snd (register E mail pw first_name last_name answer w))
       (snd (register E' mail pw first_name last_name answer w'))"
proof -
  obtain r1 ss1 where one: "AuthService_register answer (secure w) = (r1, ss1)"
    by (cases "AuthService_register answer (secure w)")
  then have one': "AuthService_register answer (secure w') = (r1, ss1)"
    using assms(2) by (simp add: differ_only_in_key_def)
  show ?thesis
  proof (cases r1)
    case (Inl e)
    then show ?thesis
      using assms(2) by (simp add: register_def one one' differ_only_in_key_def)
  next
    case (Inr authResponse)
    consider (fails) e where "deriveEncryptionKey E pw (userId authResponse) = Inl e"
        "deriveEncryptionKey E' pw (userId authResponse) = Inl e"
      | (derives) k k' where "deriveEncryptionKey E pw (userId authResponse) = Inr k"
        "deriveEncryptionKey E' pw (userId authResponse) = Inr k'"
      using kdf_outcomes_cases [OF assms(1), of pw "userId authResponse"] by blast
    then show ?thesis
    proof cases
      case (fails e)
      then show ?thesis
        using assms(2) by (simp add: register_def one one' Inr differ_only_in_key_def)
    next
      case (derives k k')
      then show ?thesis
        using assms(2)
        by (cases "saveTokens (resp_accessToken authResponse) (resp_refreshToken authResponse) ss1")
          (auto simp: register_def one one' Inr differ_only_in_key_def Let_def split: sum.splits)
    qed
  qed
qed

lemma logout_differ:
  assumes "differ_only_in_key w w'"
  shows "fst (logout answer w) = fst (logout answer w') \<and>
     differ_only_in_key (snd (logout answer w)) (snd (logout answer w'))"
  using assms
  by (simp add: logout_def differ_only_in_key_def split: prod.splits sum.splits)

lemma loadSession_differ:
  assumes "differ_only_in_key w w'"
  shows "differ_only_in_key (loadSession w) (loadSession w')"
  using assms
  by (simp add: loadSession_def differ_only_in_key_def Let_def split: prod.splits sum.splits)

lemma unlockApp_differ:
  assumes "kdf_outcomes_agree E E'" and "differ_only_in_key w w'"
  shows "fst (unlockApp E pw w) = fst (unlockApp E' pw w') \<and>
     differ_only_in_key (snd (unlockApp E pw w)) (snd (unlockApp E' pw w'))"
proof (cases "user (auth w)")
  case None
  then show ?thesis
    using assms(2) by (simp add: unlockApp_def differ_only_in_key_def)
next
  case (Some u)
  then have u': "user (auth w') = Some u"
    using assms(2) by (simp add: differ_only_in_key_def)
  consider (fails) e where "deriveEncryptionKey E pw (id' u) = Inl e"
      "deriveEncryptionKey E' pw (id' u) = Inl e"
    | (derives) k k' where "deriveEncryptionKey E pw (id' u) = Inr k"
      "deriveEncryptionKey E' pw (id' u) = Inr k'"
    using kdf_outcomes_cases [OF assms(1), of pw "id' u"] by blast
  then show ?thesis
  proof cases
    case (fails e)
    then show ?thesis
      using assms(2) by (simp add: unlockApp_def Some u' differ_only_in_key_def)
  next
    case (derives k k')
    then show ?thesis
      using assms(2) by (simp add: unlockApp_def Some u' differ_only_in_key_def)
  qed
qed

lemma clearError_differ:
  assumes "differ_only_in_key w w'"
  shows "differ_only_in_key (clearError w) (clearError w')"
  using assms by (simp add: clearError_def differ_only_in_key_def)

lemma handleUnlock_differ:
  assumes "kdf_outcomes_agree E E'" and "differ_only_in_key w w'"
  shows "differ_only_in_key (handleUnlock E scr w) (handleUnlock E' scr w')"
proof -
  obtain r1 w1 where one: "unlockApp E (password scr) (clearError w) = (r1, w1)"
    by (cases "unlockApp E (password scr) (clearError w)")
  obtain r2 w2 where two: "unlockApp E' (password scr) (clearError w') = (r2, w2)"
    by (cases "unlockApp E' (password scr) (clearError w')")
  have "r1 = r2 \<and> differ_only_in_key w1 w2"
    using unlockApp_differ [OF assms(1) clearError_differ [OF assms(2)], of "password scr"]
      one two by simp
  then show ?thesis
    using assms(2)
    by (auto simp: handleUnlock_def one two differ_only_in_key_def split: sum.splits prod.splits)
qed

lemma handleBiometricUnlock_differ:
  assumes "kdf_outcomes_agree E E'" and "differ_only_in_key w w'"
  shows "differ_only_in_key (snd (handleBiometricUnlock E prompt scr w))
     (snd (handleBiometricUnlock E' prompt scr w'))"
proof -
  obtain r1 ss1 where one: "getItemAsync ''vaultguard_biometric_password'' (secure w) = (r1, ss1)"
    by (cases "getItemAsync ''vaultguard_biometric_password'' (secure w)")
  then have one': "getItemAsync ''vaultguard_biometric_password'' (secure w') = (r1, ss1)"
    using assms(2) by (simp add: differ_only_in_key_def)
  have moved: "differ_only_in_key (w\<lparr>secure := ss1\<rparr>) (w'\<lparr>secure := ss1\<rparr>)"
    using assms(2) by (simp add: differ_only_in_key_def)
  show ?thesis
    using assms(2) moved unlockApp_differ [OF assms(1) moved]
    by (auto simp: handleBiometricUnlock_def one one' split: option.splits sum.splits)
qed

lemma checkBiometric_differ:
  assumes "kdf_outcomes_agree E E'" and "differ_only_in_key w w'"
  shows "differ_only_in_key (snd (checkBiometric E compatible enrolled prompt scr w))
     (snd (checkBiometric E' compatible enrolled prompt scr w'))"
proof -
  obtain r1 ss1 where one: "getItemAsync BIOMETRIC_ENABLED (secure w) = (r1, ss1)"
    by (cases "getItemAsync BIOMETRIC_ENABLED (secure w)")
  then have one': "getItemAsync BIOMETRIC_ENABLED (secure w') = (r1, ss1)"
    using assms(2) by (simp add: differ_only_in_key_def)
  have moved: "differ_only_in_key (w\<lparr>secure := ss1\<rparr>) (w'\<lparr>secure := ss1\<rparr>)"
    using assms(2) by (simp add: differ_only_in_key_def)
  show ?thesis
    using assms(2) moved handleBiometricUnlock_differ [OF assms(1) moved]
    by (auto simp: checkBiometric_def one one' Let_def split: sum.splits)
qed

lemma perform_differ:
  assumes "kdf_outcomes_agree E E'" and "differ_only_in_key w w'"
  shows "differ_only_in_key (perform E a w) (perform E' a w')"
proof (cases a)
  case (Login mail pw answer)
  then show ?thesis using login_differ [OF assms] by simp
next
  case (Register mail pw first_name last_name answer)
  then show ?thesis using register_differ [OF assms] by simp
next
  case (Logout answer)
  then show ?thesis using logout_differ [OF assms(2)] by simp
next
  case LoadSession
  then show ?thesis using loadSession_differ [OF assms(2)] by simp
next
  case ClearError
  then show ?thesis using clearError_differ [OF assms(2)] by simp
next
  case LockApp
  then show ?thesis using assms(2) by (simp add: lockApp_def differ_only_in_key_def)
next
  case (UnlockApp pw)
  then show ?thesis using unlockApp_differ [OF assms] by simp
next
  case (AppStateChange s)
  then show ?thesis
    using assms(2) by (simp add: handleAppStateChange_def lockApp_def differ_only_in_key_def)
next
  case (HandleUnlock scr)
  then show ?thesis using handleUnlock_differ [OF assms] by simp
next
  case (HandleBiometricUnlock prompt scr)
  then show ?thesis using handleBiometricUnlock_differ [OF assms] by simp
next
  case (CheckBiometric compatible enrolled prompt scr)
  then show ?thesis using checkBiometric_differ [OF assms] by simp
next
  case (GetDeviceId fresh1 fresh2)
  then show ?thesis using assms(2) by (simp add: differ_only_in_key_def)
next
  case (RefreshOnUnauthorized answer)
  then show ?thesis using assms(2) by (simp add: differ_only_in_key_def)
qed

lemma run_differ:
  assumes "kdf_outcomes_agree E E'" and "differ_only_in_key w w'"
  shows "differ_only_in_key (run E as w) (run E' as w')"
  using assms(2)
proof (induction as arbitrary: w w')
  case Nil
  then show ?case by simp
next
  case (Cons a as)
  then show ?case
    using perform_differ [OF assms(1)] by simp
qed

lemma demo2_agrees: "kdf_outcomes_agree demo demo2"
  by (auto simp: kdf_outcomes_agree_def deriveEncryptionKey_def pbkdf2Sha256_def demo2_def
      demo_def stringToBytes_def split: sum.splits option.splits)

section \<open>Key derivation\<close>

text \<open>
  Claim C9. \<open>deriveEncryptionKey\<close> fails with an invalid-input error exactly when the
  master password is empty or shorter than 8 characters or the account identifier is
  empty, whatever the platform; \<open>derive("short", "user-1")\<close> fails with the error of the
  password check, which is an invalid-input error.
\<close>

theorem deriveEncryptionKey_InvalidInput:
  "((\<exists>e. deriveEncryptionKey E masterPassword accountId = Inl e \<and> InvalidInput e)
      \<longleftrightarrow> masterPassword = [] \<or> length masterPassword < 8 \<or> accountId = []) \<and>
   deriveEncryptionKey E ''short'' ''user-1'' =
     Inl (Error ''Master password must be at least 8 characters'') \<and>
   InvalidInput (Error ''Master password must be at least 8 characters'')"
  by (auto simp: deriveEncryptionKey_def InvalidInput_def split: option.splits)

text \<open>
  Claim C2. For a master password of at least 8 characters and a non-empty account
  identifier, \<open>deriveEncryptionKey\<close> returns what the reference definition returns:
  the base-64 encoding of the 256 bits that PBKDF2 with SHA-256 and 100,000 iterations
  derives from the UTF-8 bytes of the password, with the UTF-8 bytes of the account
  identifier as the salt; when the primitive is not available it fails with the
  derivation error. The model is a function of the platform and the two strings only, so
  two calls with the same inputs return the same string.
\<close>

theorem deriveEncryptionKey_reference:
  assumes "8 \<le> length masterPassword" and "accountId \<noteq> []"
  shows "deriveEncryptionKey E masterPassword accountId =
     (case kdf_reference E masterPassword accountId of
        None \<Rightarrow> Inl (Error ''Failed to derive encryption key'')
      | Some k \<Rightarrow> Inr k)"
proof -
  have "masterPassword \<noteq> []"
    using assms(1) by auto
  then show ?thesis
    using assms
    by (simp add: deriveEncryptionKey_def kdf_reference_def pbkdf2Sha256_def stringToBytes_def
        bytesToBase64_def PBKDF2_ITERATIONS_def KEY_LENGTH_def split: option.splits)
qed

theorem deriveEncryptionKey_reference_witness:
  "8 \<le> length ''Sup3rSecret!'' \<and> ''user-42'' \<noteq> [] \<and>
   kdf_reference demo ''Sup3rSecret!'' ''user-42'' = Some demo_key \<and>
   deriveEncryptionKey demo ''Sup3rSecret!'' ''user-42'' = Inr demo_key"
proof -
  have ref: "kdf_reference demo ''Sup3rSecret!'' ''user-42'' = Some demo_key"
    by (simp add: kdf_reference_def demo_simps demo_key_def)
  show ?thesis
    using deriveEncryptionKey_reference [of "''Sup3rSecret!''" "''user-42''" demo] ref
    by simp
qed

section \<open>The cipher\<close>

text \<open>
  Claim C10. \<open>encryptData\<close> rejects the empty plaintext under every key, and before
  anything else happens: the random source is untouched and the platform is not
  consulted. \<open>encryptData\<close> and \<open>decryptData\<close> throw when the key is empty. \<open>decryptData\<close>
  throws the error \<open>Invalid encrypted data structure\<close>, which is not the decryption
  failure, whenever the record or one of its three fields is missing or empty.
\<close>

theorem cipher_input_validation:
  "encryptData E [] k rng = (Inl (Error ''Plaintext data is required''), rng) \<and>
   encryptData E p [] rng =
     (Inl (Error (if p = [] then ''Plaintext data is required'' else ''Encryption key is required'')), rng) \<and>
   decryptData E r [] =
     Inl (Error (if malformed r then ''Invalid encrypted data structure''
                 else ''Encryption key is required'')) \<and>
   (malformed r \<longrightarrow>
      decryptData E r k = Inl (Error ''Invalid encrypted data structure'') \<and>
      decryptData E r k \<noteq> Inl DecryptionFailed)"
  by (auto simp: encryptData_def decryptData_def malformed_def DecryptionFailed_def
      split: option.splits)

theorem cipher_input_validation_witness:
  "malformed (Some \<lparr> encryptedData = Some ''s4eFnJg='', iv = Some [], authTag = None \<rparr>) \<and>
   decryptData demo (Some \<lparr> encryptedData = Some ''s4eFnJg='', iv = Some [], authTag = None \<rparr>)
     demo_key = Inl (Error ''Invalid encrypted data structure'')"
  using cipher_input_validation
    [of demo demo_key demo_rng "''x''"
      "Some \<lparr> encryptedData = Some ''s4eFnJg='', iv = Some [], authTag = None \<rparr>"]
  by (simp add: malformed_def)

text \<open>
  Claim C1, as stated, fails at the empty plaintext: \<open>encryptData\<close> throws under a
  valid key, so there is no record to decrypt.
\<close>

theorem empty_plaintext_counterexample:
  "valid_key demo demo_key \<and>
   fst (encryptData demo [] demo_key demo_rng) = Inl (Error ''Plaintext data is required'')"
  by (simp add: demo_key_valid encryptData_def)

text \<open>
  Claim C1, amended. On a platform that meets the contracts, for every valid 256-bit key
  and every non-empty plaintext that the text codec returns unchanged, \<open>encryptData\<close>
  returns a record and \<open>decryptData\<close> of that record under the same key returns the
  plaintext. There is no bound on the length of the plaintext.
\<close>

theorem decryptData_encryptData:
  assumes "platform_laws E" and "valid_key E k" and "p \<noteq> []"
    and "TextDecoder_decode E (TextEncoder_encode E p) = p"
  shows "\<exists>r. fst (encryptData E p k rng) = Inr r \<and> decryptData E (Some r) k = Inr p"
  using roundtrip [OF assms, of rng] by auto

theorem decryptData_encryptData_witness:
  "platform_laws demo \<and> valid_key demo demo_key \<and> ''hello'' \<noteq> [] \<and>
   TextDecoder_decode demo (TextEncoder_encode demo ''hello'') = ''hello'' \<and>
   (\<exists>r. fst (encryptData demo ''hello'' demo_key demo_rng) = Inr r \<and>
        decryptData demo (Some r) demo_key = Inr ''hello'')"
proof -
  have codec: "TextDecoder_decode demo (TextEncoder_encode demo ''hello'') = ''hello''"
    by (simp add: demo_def binary_of_bytes_of_binary)
  show ?thesis
    using decryptData_encryptData [OF demo_platform_laws demo_key_valid _ codec, of demo_rng]
      demo_platform_laws demo_key_valid codec
    by simp
qed

text \<open>
  Claim C3, as stated, fails at the empty plaintext: two calls under a valid key draw
  nothing and return no record.
\<close>

theorem encrypt_many_empty_counterexample:
  "valid_key demo demo_key \<and>
   fst (encrypt_many demo [] demo_key 2 demo_rng) =
     [Inl (Error ''Plaintext data is required''), Inl (Error ''Plaintext data is required'')]"
  by (simp add: demo_key_valid encryptData_def numeral_2_eq_2)

text \<open>
  Claim C3, amended. On every platform, for every plaintext and key: a call of
  \<open>encryptData\<close> that returns a record has drawn exactly the next 12 bytes of the random
  source and returns their base-64 encoding as \<open>iv\<close>; a call stopped by a guard (empty
  plaintext, empty key) or by the key (its base-64 decoding or its import fails) throws
  and has drawn nothing; a call whose encryption primitive fails throws
  \<open>Failed to encrypt data\<close> after the draw of 12 bytes. On a platform that meets the
  contracts, for a valid key and a non-empty plaintext, \<open>n\<close> successive calls return
  \<open>n\<close> records; the \<open>i\<close>-th carries the \<open>i\<close>-th block of 12 random bytes and
  decrypts to the text that the codec makes of the plaintext, which is the plaintext
  when the codec returns it unchanged; when the blocks drawn are pairwise distinct so
  are the \<open>iv\<close> fields.
\<close>

theorem encrypt_many_nonces:
  "(\<forall>q k' r rng'. encryptData E q k' rng = (Inr r, rng') \<longrightarrow>
      iv r = Some (bytesToBase64 E (draw rng 0)) \<and> length (draw rng 0) = 12 \<and>
      rng' = snd (getRandomValues 12 rng)) \<and>
   (\<forall>q k'. q = [] \<or> k' = [] \<or> base64ToBytes E k' = None \<or>
       (\<exists>raw. base64ToBytes E k' = Some raw \<and>
          subtle_importKey E (AES_GCM 256) [Uencrypt] raw = None) \<longrightarrow>
      (\<exists>e. encryptData E q k' rng = (Inl e, rng))) \<and>
   (\<forall>q k' raw ck. q \<noteq> [] \<and> k' \<noteq> [] \<and> base64ToBytes E k' = Some raw \<and>
       subtle_importKey E (AES_GCM 256) [Uencrypt] raw = Some ck \<and>
       subtle_encrypt E ck (draw rng 0) 128 (TextEncoder_encode E q) = None \<longrightarrow>
      encryptData E q k' rng =
        (Inl (Error ''Failed to encrypt data''), snd (getRandomValues 12 rng))) \<and>
   (platform_laws E \<and> valid_key E k \<and> p \<noteq> [] \<longrightarrow>
      (\<exists>rs. fst (encrypt_many E p k n rng) = map Inr rs \<and> length rs = n \<and>
         (\<forall>i<n. iv (rs ! i) = Some (bytesToBase64 E (draw rng i)) \<and>
                 decryptData E (Some (rs ! i)) k =
                   Inr (TextDecoder_decode E (TextEncoder_encode E p))) \<and>
         (TextDecoder_decode E (TextEncoder_encode E p) = p \<longrightarrow>
            (\<forall>i<n. decryptData E (Some (rs ! i)) k = Inr p)) \<and>
         (distinct (map (draw rng) [0..<n]) \<longrightarrow> distinct (map iv rs))))"
proof -
  have drawn: "\<forall>q k' r rng'. encryptData E q k' rng = (Inr r, rng') \<longrightarrow>
      iv r = Some (bytesToBase64 E (draw rng 0)) \<and> length (draw rng 0) = 12 \<and>
      rng' = snd (getRandomValues 12 rng)"
  proof (intro allI impI)
    fix q k' r rng'
    assume "encryptData E q k' rng = (Inr r, rng')"
    from encryptData_iv [OF this]
    show "iv r = Some (bytesToBase64 E (draw rng 0)) \<and> length (draw rng 0) = 12 \<and>
      rng' = snd (getRandomValues 12 rng)"
      by (simp add: draw_def)
  qed
  have untouched: "\<forall>q k'. q = [] \<or> k' = [] \<or> base64ToBytes E k' = None \<or>
       (\<exists>raw. base64ToBytes E k' = Some raw \<and>
          subtle_importKey E (AES_GCM 256) [Uencrypt] raw = None) \<longrightarrow>
      (\<exists>e. encryptData E q k' rng = (Inl e, rng))"
  proof (intro allI impI)
    fix q k' :: string
    assume "q = [] \<or> k' = [] \<or> base64ToBytes E k' = None \<or>
       (\<exists>raw. base64ToBytes E k' = Some raw \<and>
          subtle_importKey E (AES_GCM 256) [Uencrypt] raw = None)"
    then show "\<exists>e. encryptData E q k' rng = (Inl e, rng)"
      by (rule encryptData_no_draw)
  qed
  have late: "\<forall>q k' raw ck. q \<noteq> [] \<and> k' \<noteq> [] \<and> base64ToBytes E k' = Some raw \<and>
       subtle_importKey E (AES_GCM 256) [Uencrypt] raw = Some ck \<and>
       subtle_encrypt E ck (draw rng 0) 128 (TextEncoder_encode E q) = None \<longrightarrow>
      encryptData E q k' rng =
        (Inl (Error ''Failed to encrypt data''), snd (getRandomValues 12 rng))"
  proof (intro allI impI, elim conjE)
    fix q k' :: string and raw ck
    assume "q \<noteq> []" and "k' \<noteq> []" and "base64ToBytes E k' = Some raw"
      and "subtle_importKey E (AES_GCM 256) [Uencrypt] raw = Some ck"
      and "subtle_encrypt E ck (draw rng 0) 128 (TextEncoder_encode E q) = None"
    then show "encryptData E q k' rng =
        (Inl (Error ''Failed to encrypt data''), snd (getRandomValues 12 rng))"
      by (rule encryptData_draw_then_fail)
  qed
  have many: "\<exists>rs. fst (encrypt_many E p k n rng) = map Inr rs \<and> length rs = n \<and>
         (\<forall>i<n. iv (rs ! i) = Some (bytesToBase64 E (draw rng i)) \<and>
                 decryptData E (Some (rs ! i)) k =
                   Inr (TextDecoder_decode E (TextEncoder_encode E p))) \<and>
         (TextDecoder_decode E (TextEncoder_encode E p) = p \<longrightarrow>
            (\<forall>i<n. decryptData E (Some (rs ! i)) k = Inr p)) \<and>
         (distinct (map (draw rng) [0..<n]) \<longrightarrow> distinct (map iv rs))"
    if laws: "platform_laws E" and key: "valid_key E k" and p: "p \<noteq> []"
  proof -
    have b64: "base64_laws E"
      using laws by (simp add: platform_laws_def)
    from encrypt_many_records [OF laws key p, of n rng] obtain rs where
      rs: "fst (encrypt_many E p k n rng) = map Inr rs" and len: "length rs = n"
      and each: "\<forall>i<n. iv (rs ! i) = Some (bytesToBase64 E (draw rng i)) \<and>
                decryptData E (Some (rs ! i)) k =
                  Inr (TextDecoder_decode E (TextEncoder_encode E p))"
      by blast
    have ivs: "map iv rs = map (\<lambda>i. Some (bytesToBase64 E (draw rng i))) [0..<n]"
      using len each by (simp add: list_eq_iff_nth_eq)
    have "distinct (map iv rs)" if "distinct (map (draw rng) [0..<n])"
    proof -
      have "inj_on (\<lambda>i. Some (bytesToBase64 E (draw rng i))) (set [0..<n])"
      proof (rule inj_onI)
        fix i j
        assume i: "i \<in> set [0..<n]" and j: "j \<in> set [0..<n]"
          and eq: "Some (bytesToBase64 E (draw rng i)) = Some (bytesToBase64 E (draw rng j))"
        from eq have "draw rng i = draw rng j"
          using b64 bytesToBase64_inject by auto
        moreover have "inj_on (draw rng) (set [0..<n])"
          using that by (simp add: distinct_map)
        ultimately show "i = j"
          using i j by (auto dest: inj_onD)
      qed
      then show ?thesis
        unfolding ivs by (simp add: distinct_map)
    qed
    moreover have "\<forall>i<n. decryptData E (Some (rs ! i)) k = Inr p"
      if "TextDecoder_decode E (TextEncoder_encode E p) = p"
      using each that by simp
    ultimately show ?thesis
      using rs len each by blast
  qed
  show ?thesis
  proof (intro conjI impI)
    assume "platform_laws E \<and> valid_key E k \<and> p \<noteq> []"
    then show "\<exists>rs. fst (encrypt_many E p k n rng) = map Inr rs \<and> length rs = n \<and>
         (\<forall>i<n. iv (rs ! i) = Some (bytesToBase64 E (draw rng i)) \<and>
                 decryptData E (Some (rs ! i)) k =
                   Inr (TextDecoder_decode E (TextEncoder_encode E p))) \<and>
         (TextDecoder_decode E (TextEncoder_encode E p) = p \<longrightarrow>
            (\<forall>i<n. decryptData E (Some (rs ! i)) k = Inr p)) \<and>
         (distinct (map (draw rng) [0..<n]) \<longrightarrow> distinct (map iv rs))"
      using many by simp
  qed (rule drawn untouched late)+
qed

theorem encrypt_many_nonces_witness:
  "platform_laws demo \<and> valid_key demo demo_key \<and> ''hello'' \<noteq> [] \<and>
   TextDecoder_decode demo (TextEncoder_encode demo ''hello'') = ''hello'' \<and>
   distinct (map (draw demo_rng) [0..<2]) \<and>
   (\<exists>rs. fst (encrypt_many demo ''hello'' demo_key 2 demo_rng) = map Inr rs \<and> length rs = 2 \<and>
      iv (rs ! 0) = Some (bytesToBase64 demo (draw demo_rng 0)) \<and>
      iv (rs ! 1) = Some (bytesToBase64 demo (draw demo_rng 1)) \<and>
      distinct (map iv rs) \<and>
      decryptData demo (Some (rs ! 0)) demo_key = Inr ''hello'' \<and>
      decryptData demo (Some (rs ! 1)) demo_key = Inr ''hello'') \<and>
   encryptData demo ''hello'' demo_key demo_rng =
     (Inr demo_record, snd (getRandomValues 12 demo_rng)) \<and>
   iv demo_record = Some (bytesToBase64 demo (draw demo_rng 0)) \<and>
   (\<exists>e. encryptData demo [] demo_key demo_rng = (Inl e, demo_rng)) \<and>
   (\<exists>e. encryptData demo ''hello'' [] demo_rng = (Inl e, demo_rng)) \<and>
   base64ToBytes demo ''!!!!'' = None \<and>
   (\<exists>e. encryptData demo ''hello'' ''!!!!'' demo_rng = (Inl e, demo_rng)) \<and>
   base64ToBytes demo ''AAAA'' = Some [0, 0, 0] \<and>
   subtle_importKey demo (AES_GCM 256) [Uencrypt] [0, 0, 0] = None \<and>
   (\<exists>e. encryptData demo ''hello'' ''AAAA'' demo_rng = (Inl e, demo_rng)) \<and>
   (\<exists>raw ck. base64ToBytes demo_no_encrypt demo_key = Some raw \<and>
      subtle_importKey demo_no_encrypt (AES_GCM 256) [Uencrypt] raw = Some ck \<and>
      subtle_encrypt demo_no_encrypt ck (draw demo_rng 0) 128
        (TextEncoder_encode demo_no_encrypt ''hello'') = None) \<and>
   encryptData demo_no_encrypt ''hello'' demo_key demo_rng =
     (Inl (Error ''Failed to encrypt data''), snd (getRandomValues 12 demo_rng))"
proof -
  note nonces = encrypt_many_nonces [where E = demo and k = demo_key and p = "''hello''"
      and n = 2 and rng = demo_rng]
  have codec: "TextDecoder_decode demo (TextEncoder_encode demo ''hello'') = ''hello''"
    by (simp add: demo_def binary_of_bytes_of_binary)
  have draws: "distinct (map (draw demo_rng) [0..<2])"
    by (simp add: draw_def demo_rng_def upt_0_numeral upt_1_numeral)
  from nonces demo_platform_laws demo_key_valid codec draws
  obtain rs where rs: "fst (encrypt_many demo ''hello'' demo_key 2 demo_rng) = map Inr rs"
    "length rs = 2"
    "\<forall>i<2. iv (rs ! i) = Some (bytesToBase64 demo (draw demo_rng i)) \<and>
       decryptData demo (Some (rs ! i)) demo_key = Inr ''hello''"
    "distinct (map iv rs)"
    by auto
  from rs(3) have each: "iv (rs ! 0) = Some (bytesToBase64 demo (draw demo_rng 0))"
    "iv (rs ! 1) = Some (bytesToBase64 demo (draw demo_rng 1))"
    "decryptData demo (Some (rs ! 0)) demo_key = Inr ''hello''"
    "decryptData demo (Some (rs ! 1)) demo_key = Inr ''hello''"
    by simp_all
  have many: "\<exists>rs. fst (encrypt_many demo ''hello'' demo_key 2 demo_rng) = map Inr rs \<and>
      length rs = 2 \<and>
      iv (rs ! 0) = Some (bytesToBase64 demo (draw demo_rng 0)) \<and>
      iv (rs ! 1) = Some (bytesToBase64 demo (draw demo_rng 1)) \<and>
      distinct (map iv rs) \<and>
      decryptData demo (Some (rs ! 0)) demo_key = Inr ''hello'' \<and>
      decryptData demo (Some (rs ! 1)) demo_key = Inr ''hello''"
    using rs(1,2,4) each by blast
  have "encryptData demo ''hello'' demo_key demo_rng =
      (Inr demo_record, snd (encryptData demo ''hello'' demo_key demo_rng))"
    using demo_record_encrypted by (simp add: prod_eq_iff)
  with nonces have one: "encryptData demo ''hello'' demo_key demo_rng =
      (Inr demo_record, snd (getRandomValues 12 demo_rng))"
    "iv demo_record = Some (bytesToBase64 demo (draw demo_rng 0))"
    by auto
  have bad: "base64ToBytes demo ''!!!!'' = None"
    by (simp add: base64ToBytes_def demo_def b64_index_def)
  have short: "base64ToBytes demo ''AAAA'' = Some [0, 0, 0]"
    "subtle_importKey demo (AES_GCM 256) [Uencrypt] [0, 0, 0] = None"
    by (simp_all add: base64ToBytes_def bytes_of_binary_def demo_simps b64_index_def)
  from nonces bad short have early:
    "\<exists>e. encryptData demo [] demo_key demo_rng = (Inl e, demo_rng)"
    "\<exists>e. encryptData demo ''hello'' [] demo_rng = (Inl e, demo_rng)"
    "\<exists>e. encryptData demo ''hello'' ''!!!!'' demo_rng = (Inl e, demo_rng)"
    "\<exists>e. encryptData demo ''hello'' ''AAAA'' demo_rng = (Inl e, demo_rng)"
    by blast+
  have rejected: "\<exists>raw ck. base64ToBytes demo_no_encrypt demo_key = Some raw \<and>
      subtle_importKey demo_no_encrypt (AES_GCM 256) [Uencrypt] raw = Some ck \<and>
      subtle_encrypt demo_no_encrypt ck (draw demo_rng 0) 128
        (TextEncoder_encode demo_no_encrypt ''hello'') = None"
    by (simp add: demo_no_encrypt_def base64ToBytes_def bytes_of_binary_def demo_simps
        b64_index_def demo_key_def)
  have key: "demo_key \<noteq> []"
    by (simp add: demo_key_def)
  from rejected key
    encrypt_many_nonces [where E = demo_no_encrypt and k = demo_key and p = "''hello''"
      and n = 2 and rng = demo_rng]
  have late: "encryptData demo_no_encrypt ''hello'' demo_key demo_rng =
      (Inl (Error ''Failed to encrypt data''), snd (getRandomValues 12 demo_rng))"
    by blast
  show ?thesis
    using demo_platform_laws demo_key_valid codec draws many one bad early short rejected late
    by simp
qed




section \<open>The key lifecycle\<close>

text \<open>
  What the two actions do to the state. \<open>lockApp\<close> makes the key absent and leaves the
  account context, the tokens, the authentication flag and the secure store as they
  are. A \<open>logout\<close> that returns leaves the key, the account context and the tokens
  absent, the authentication flag off and the secure store without either token, and
  \<open>logout\<close> returns whenever no call of the secure store fails. A \<open>logout\<close> that
  throws has changed nothing of the state in memory.
\<close>

lemma lockApp_logout_state:
  "encryptionKey (auth (lockApp w)) = None \<and>
   user (auth (lockApp w)) = user (auth w) \<and>
   accessToken (auth (lockApp w)) = accessToken (auth w) \<and>
   refreshToken (auth (lockApp w)) = refreshToken (auth w) \<and>
   isAuthenticated (auth (lockApp w)) = isAuthenticated (auth w) \<and>
   secure (lockApp w) = secure w \<and>
   (fst (logout answer w) = Inr () \<longrightarrow>
      encryptionKey (auth (snd (logout answer w))) = None \<and>
      user (auth (snd (logout answer w))) = None \<and>
      accessToken (auth (snd (logout answer w))) = None \<and>
      refreshToken (auth (snd (logout answer w))) = None \<and>
      \<not> isAuthenticated (auth (snd (logout answer w))) \<and>
      entries (secure (snd (logout answer w))) ACCESS_TOKEN = None \<and>
      entries (secure (snd (logout answer w))) REFRESH_TOKEN = None) \<and>
   (faults (secure w) = [] \<longrightarrow> fst (logout answer w) = Inr ())"
proof -
  have lock: "lockApp w = w\<lparr>auth := (auth w)\<lparr>encryptionKey := None\<rparr>\<rparr>"
    by (simp add: lockApp_def)
  obtain r1 ss1 where first: "AuthService_logout answer (secure w) = (r1, ss1)"
    by (cases "AuthService_logout answer (secure w)")
  obtain r2 ss2 where second: "clearTokens ss1 = (r2, ss2)"
    by (cases "clearTokens ss1")
  have out: "logout answer w =
      (case r2 of
         Inl e \<Rightarrow> (Inl e, w\<lparr>secure := ss2\<rparr>)
       | Inr u \<Rightarrow>
           (Inr (), \<lparr> auth = (auth w)\<lparr>user := None, accessToken := None, refreshToken := None,
                                      encryptionKey := None, isAuthenticated := False,
                                      error := None\<rparr>,
                      secure = ss2 \<rparr>))"
    by (simp add: logout_def first second split: sum.splits)
  have cleared: "entries ss2 ACCESS_TOKEN = None \<and> entries ss2 REFRESH_TOKEN = None"
    if "r2 = Inr u" for u
    using second that clearTokens_ok by blast
  have completes: "r2 = Inr ()" if "faults (secure w) = []"
  proof -
    have "faults ss1 = []"
      using that first clearTokens_no_faults [of "secure w"]
      by (simp add: AuthService_logout_def)
    then show ?thesis
      using second clearTokens_no_faults [of ss1] by simp
  qed
  show ?thesis
    using cleared completes by (auto simp: lock out split: sum.splits)
qed

lemma logout_throws_state_kept:
  assumes "fst (logout answer w) = Inl e"
  shows "auth (snd (logout answer w)) = auth w"
  using assms by (auto simp: logout_def split: prod.splits sum.splits)

text \<open>
  Claim C4 against the code. The \<open>finally\<close> block of \<open>logout\<close> awaits \<open>clearTokens\<close>
  before it resets the state. In the unlocked state of a registered account, with a
  secure store whose third call fails, the two deletions of \<open>AuthService.logout\<close>
  succeed, the first deletion of the \<open>finally\<close> block throws, and \<open>logout\<close> ends with
  that error: the key, the account context and both tokens are still in the state and
  the session still counts as authenticated.
\<close>

theorem logout_throws_key_resident:
  "encryptionKey (auth logout_fault_world) = Some demo_key \<and>
   faults (secure logout_fault_world) = [False, False, True] \<and>
   fst (logout (Inr ()) logout_fault_world) = Inl secure_store_error \<and>
   encryptionKey (auth (snd (logout (Inr ()) logout_fault_world))) = Some demo_key \<and>
   user (auth (snd (logout (Inr ()) logout_fault_world))) =
     Some \<lparr> id' = ''user-42'', email = ''a@b.com'', firstName = None, lastName = None \<rparr> \<and>
   accessToken (auth (snd (logout (Inr ()) logout_fault_world))) = Some ''access-1'' \<and>
   refreshToken (auth (snd (logout (Inr ()) logout_fault_world))) = Some ''refresh-1'' \<and>
   isAuthenticated (auth (snd (logout (Inr ()) logout_fault_world)))"
  by (simp add: logout_fault_world_def logout_def store_simps unlocked_world_auth)

text \<open>
  Claim C5. In every run of the actions of the key lifecycle, of the unlock flow and of
  the API client (the token refresh and the device identifier), from
  any state and under any schedule of failures of the secure store, every write to the
  secure store is one of the permitted writes of an action of the run: a bearer token of
  the server's answer under its storage key, the master password typed into the unlock
  screen when biometric unlock is enabled there, or the generated device identifier. The
  key is not among the sources of a write: on two platforms that derive different keys,
  from states that differ only in the resident key, the same run leaves equal secure
  stores (contents, writes and remaining failures) and states that differ only in the key.
  Biometric unlock is enabled on a freshly mounted unlock screen only when the device has
  enrolled biometric hardware and the secure store holds the opt-in flag with the value
  \<open>true\<close>.
\<close>

theorem derived_key_never_persisted:
  "set (writes (secure (run E as w))) \<subseteq> set (writes (secure w)) \<union> (\<Union>a\<in>set as. permitted a) \<and>
   (kdf_outcomes_agree E E' \<longrightarrow> differ_only_in_key w w' \<longrightarrow>
      differ_only_in_key (run E as w) (run E' as w')) \<and>
   (biometricEnabled (fst (checkBiometric E compatible enrolled prompt initial_UnlockScreen w)) \<longrightarrow>
      compatible \<and> enrolled \<and> entries (secure w) BIOMETRIC_ENABLED = Some ''true'')"
proof -
  have "\<not> biometricEnabled initial_UnlockScreen"
    by (simp add: initial_UnlockScreen_def)
  then show ?thesis
    using run_writes [of E as w] run_differ [of E E' w w' as]
      checkBiometric_enabled [of E compatible enrolled prompt initial_UnlockScreen w]
    by blast
qed

theorem derived_key_never_persisted_witness:
  "kdf_outcomes_agree demo demo2 \<and> differ_only_in_key demo_world demo_world \<and>
   writes (secure demo_world) = [] \<and>
   writes (secure (run demo demo_trace demo_world)) =
     [(ACCESS_TOKEN, ''access-1''), (REFRESH_TOKEN, ''refresh-1''),
      (ACCESS_TOKEN, ''access-1''), (REFRESH_TOKEN, ''refresh-1''),
      (''vaultguard_biometric_password'', ''Sup3rSecret!''), (DEVICE_ID_KEY, ''uuid-1'')] \<and>
   set (writes (secure (run demo demo_trace demo_world))) \<subseteq>
     {(ACCESS_TOKEN, ''access-1''), (REFRESH_TOKEN, ''refresh-1''),
      (''vaultguard_biometric_password'', ''Sup3rSecret!''), (DEVICE_ID_KEY, ''uuid-1'')} \<and>
   differ_only_in_key (run demo demo_trace demo_world) (run demo2 demo_trace demo_world) \<and>
   \<not> biometricEnabled (fst (checkBiometric demo True True None initial_UnlockScreen demo_world))"
proof -
  have same: "differ_only_in_key demo_world demo_world"
    by (simp add: differ_only_in_key_def)
  have empty: "writes (secure demo_world) = []"
    and flag: "entries (secure demo_world) BIOMETRIC_ENABLED = None"
    by (simp_all add: demo_world_def demo_store_def)
  have allowed: "(\<Union>a\<in>set demo_trace. permitted a) =
     {(ACCESS_TOKEN, ''access-1''), (REFRESH_TOKEN, ''refresh-1''),
      (''vaultguard_biometric_password'', ''Sup3rSecret!''), (DEVICE_ID_KEY, ''uuid-1'')}"
    by (auto simp: demo_trace_def demo_answer_def)
  from derived_key_never_persisted
    [of demo demo_trace demo_world demo2 demo_world True True None]
  have "set (writes (secure (run demo demo_trace demo_world))) \<subseteq>
     {(ACCESS_TOKEN, ''access-1''), (REFRESH_TOKEN, ''refresh-1''),
      (''vaultguard_biometric_password'', ''Sup3rSecret!''), (DEVICE_ID_KEY, ''uuid-1'')}"
    and "differ_only_in_key (run demo demo_trace demo_world) (run demo2 demo_trace demo_world)"
    and "\<not> biometricEnabled (fst (checkBiometric demo True True None initial_UnlockScreen demo_world))"
    using demo2_agrees same empty allowed flag by auto
  then show ?thesis
    using demo2_agrees same empty demo_trace_writes by simp
qed

text \<open>
  Claim C7, as stated, fails. The account is registered with one password and holds a
  record encrypted under its key; the state is locked, with the account context present.
  \<open>unlockApp\<close> with another password, which \<open>verifyMasterPassword\<close> rejects on that
  record, reports success and makes the key of that password resident; the record does
  not decrypt under it.
\<close>

theorem unlockApp_wrong_password_counterexample:
  "user (auth locked_world) =
     Some \<lparr> id' = ''user-42'', email = ''a@b.com'', firstName = None, lastName = None \<rparr> \<and>
   encryptionKey (auth locked_world) = None \<and>
   fst (encryptData demo demo_credential demo_key demo_rng) = Inr demo_item \<and>
   verifyMasterPassword demo ''Sup3rSecret!'' ''user-42'' (Some demo_item) \<and>
   \<not> verifyMasterPassword demo ''WrongPassword1'' ''user-42'' (Some demo_item) \<and>
   fst (unlockApp demo ''WrongPassword1'' locked_world) = Inr () \<and>
   encryptionKey (auth (snd (unlockApp demo ''WrongPassword1'' locked_world))) = Some wrong_key \<and>
   decryptData demo (Some demo_item) wrong_key = Inl DecryptionFailed"
  by (simp add: locked_world_def lockApp_def unlocked_world_auth unlockApp_def
      wrong_key_derived demo_key_derived verifyMasterPassword_def demo_item_encrypted
      demo_item_decrypts demo_item_wrong_key)

text \<open>
  Claim C7, amended. \<open>unlockApp\<close> decrypts nothing: its outcome is the same whatever
  the decryption primitive of the platform is. Without an account context it fails with
  \<open>No active session\<close> and leaves the state as it is. With an account context it
  succeeds for every password from which \<open>deriveEncryptionKey\<close> derives a key, and that
  key becomes resident; when derivation fails it fails with the error of the derivation
  and the resident key is as before.
\<close>

theorem unlockApp_no_verification:
  "(user (auth w) = None \<longrightarrow> unlockApp E pw w = (Inl (Error ''No active session''), w)) \<and>
   (\<forall>u k. user (auth w) = Some u \<longrightarrow> deriveEncryptionKey E pw (id' u) = Inr k \<longrightarrow>
      fst (unlockApp E pw w) = Inr () \<and>
      encryptionKey (auth (snd (unlockApp E pw w))) = Some k \<and>
      user (auth (snd (unlockApp E pw w))) = Some u) \<and>
   (\<forall>u e. user (auth w) = Some u \<longrightarrow> deriveEncryptionKey E pw (id' u) = Inl e \<longrightarrow>
      fst (unlockApp E pw w) = Inl e \<and>
      encryptionKey (auth (snd (unlockApp E pw w))) = encryptionKey (auth w)) \<and>
   (\<forall>d. unlockApp (E\<lparr>subtle_decrypt := d\<rparr>) pw w = unlockApp E pw w)"
proof -
  have free: "deriveEncryptionKey (E\<lparr>subtle_decrypt := d\<rparr>) pw s = deriveEncryptionKey E pw s"
    for d s
    by (simp add: deriveEncryptionKey_def pbkdf2Sha256_def stringToBytes_def bytesToBase64_def
        split: option.splits)
  show ?thesis
    by (cases "user (auth w)") (simp_all add: unlockApp_def Let_def free)
qed

theorem unlockApp_no_verification_witness:
  "user (auth locked_world) =
     Some \<lparr> id' = ''user-42'', email = ''a@b.com'', firstName = None, lastName = None \<rparr> \<and>
   deriveEncryptionKey demo ''WrongPassword1'' ''user-42'' = Inr wrong_key \<and>
   fst (unlockApp demo ''WrongPassword1'' locked_world) = Inr () \<and>
   encryptionKey (auth (snd (unlockApp demo ''WrongPassword1'' locked_world))) = Some wrong_key \<and>
   unlockApp (demo\<lparr>subtle_decrypt := (\<lambda>ck nonce tagLength ct. None)\<rparr>) ''WrongPassword1''
     locked_world = unlockApp demo ''WrongPassword1'' locked_world \<and>
   deriveEncryptionKey demo ''short'' ''user-42'' =
     Inl (Error ''Master password must be at least 8 characters'') \<and>
   fst (unlockApp demo ''short'' locked_world) =
     Inl (Error ''Master password must be at least 8 characters'') \<and>
   encryptionKey (auth (snd (unlockApp demo ''short'' locked_world))) = None \<and>
   unlockApp demo ''Sup3rSecret!'' demo_world = (Inl (Error ''No active session''), demo_world)"
proof -
  have u: "user (auth locked_world) =
     Some \<lparr> id' = ''user-42'', email = ''a@b.com'', firstName = None, lastName = None \<rparr>"
    and k: "encryptionKey (auth locked_world) = None"
    by (simp_all add: locked_world_def lockApp_def unlocked_world_auth)
  have short: "deriveEncryptionKey demo ''short'' ''user-42'' =
     Inl (Error ''Master password must be at least 8 characters'')"
    by (simp add: deriveEncryptionKey_def)
  have none: "user (auth demo_world) = None"
    by (simp add: demo_world_def initial_AuthStore_def)
  show ?thesis
    using unlockApp_no_verification [of locked_world demo "''WrongPassword1''"]
      unlockApp_no_verification [of locked_world demo "''short''"]
      unlockApp_no_verification [of demo_world demo "''Sup3rSecret!''"]
      u k short none wrong_key_derived
    by simp
qed

text \<open>
  Claim C8 against the code. At a start of the process with both tokens in the secure
  store, \<open>loadSession\<close> restores the tokens and the authentication flag and leaves the
  key absent, but the account context stays absent too, and the unlock that should
  follow fails with \<open>No active session\<close> whatever the password.
\<close>

theorem loadSession_restores_no_user:
  "accessToken (auth (loadSession restart_world)) = Some ''access-1'' \<and>
   refreshToken (auth (loadSession restart_world)) = Some ''refresh-1'' \<and>
   isAuthenticated (auth (loadSession restart_world)) \<and>
   encryptionKey (auth (loadSession restart_world)) = None \<and>
   user (auth (loadSession restart_world)) = None \<and>
   fst (unlockApp demo ''Sup3rSecret!'' (loadSession restart_world)) =
     Inl (Error ''No active session'')"
  by (simp add: restart_world_def loadSession_def store_simps key_simps initial_AuthStore_def
      unlockApp_def)

end
